theory Spec2Isabelle
  imports Main "HOL-Library.Sublist"
begin

section \<open>The assistant migration script (src/assistants/migrate.py)\<close>

text \<open>
  The script copies assistants from the OpenAI service to an Azure OpenAI resource. Every
  remote operation, the local file system, the log and the pause between assistants are
  effects; the model threads them through an explicit state, and every exception the
  source can raise is a value. The \<open>openai\<close> package is taken to be installed (the
  import of lines 12-16 succeeds), and building the two clients (lines 26-32) sends
  nothing.
\<close>

subsection \<open>Python values\<close>

type_synonym bytes = string

text \<open>An exception, with the text that \<open>str(e)\<close> gives in a log line.\<close>

datatype exn = Exception string

fun str_exn :: "exn \<Rightarrow> string" where
  "str_exn (Exception msg) = msg"

text \<open>Truthiness of an optional string: \<open>None\<close> and the empty string are false.\<close>

fun truthy :: "string option \<Rightarrow> bool" where
  "truthy None = False"
| "truthy (Some v) = (v \<noteq> [])"

text \<open>\<open>a or b\<close> on optional strings.\<close>

definition py_or :: "string option \<Rightarrow> string option \<Rightarrow> string option" where
  "py_or a b = (if truthy a then a else b)"

text \<open>How an f-string prints an optional string.\<close>

fun str_opt :: "string option \<Rightarrow> string" where
  "str_opt None = ''None''"
| "str_opt (Some v) = v"

text \<open>How an f-string prints a non-negative integer.\<close>

fun str_nat :: "nat \<Rightarrow> string" where
  "str_nat n =
     (if n < 10 then [char_of (48 + n)]
      else str_nat (n div 10) @ [char_of (48 + n mod 10)])"

text \<open>\<open>needle in haystack\<close> on strings: the needle occurs as a contiguous substring.\<close>

fun str_contains :: "string \<Rightarrow> string \<Rightarrow> bool" where
  "str_contains needle [] = (needle = [])"
| "str_contains needle (c # cs) = (prefix needle (c # cs) \<or> str_contains needle cs)"

text \<open>The two non-ASCII characters of the log messages, in UTF-8.\<close>

definition ellipsis :: string where
  "ellipsis = [CHR 0xE2, CHR 0x80, CHR 0xA6]"

definition rightarrow :: string where
  "rightarrow = [CHR 0xE2, CHR 0x86, CHR 0x92]"

definition quote :: string where
  "quote = [CHR 0x27]"

text \<open>\<open>os.path.join(a, b)\<close> with two arguments, as posixpath defines it.\<close>

definition os_path_join :: "string \<Rightarrow> string \<Rightarrow> string" where
  "os_path_join a b =
     (if prefix ''/'' b then b
      else if a = [] \<or> suffix ''/'' a then a @ b
      else a @ ''/'' @ b)"

text \<open>
  \<open>d[k] = v\<close> on a dictionary kept as an association list in insertion order: an existing
  key keeps its place and takes the new value, a new key goes to the end.
\<close>

fun dict_set :: "('k \<times> 'v) list \<Rightarrow> 'k \<Rightarrow> 'v \<Rightarrow> ('k \<times> 'v) list" where
  "dict_set [] k v = [(k, v)]"
| "dict_set ((k', v') # kvs) k v =
     (if k' = k then (k, v) # kvs else (k', v') # dict_set kvs k v)"

subsection \<open>Data\<close>

text \<open>A tool definition is opaque to the script: it is passed through unchanged.\<close>

datatype tool = Tool string

text \<open>The assistant object the OpenAI service returns.\<close>

record assistant =
  a_id :: string
  a_name :: "string option"
  a_instructions :: "string option"
  a_model :: string
  a_tools :: "tool list"
  a_file_ids :: "string list"

text \<open>One element of \<open>file_details\<close>: \<open>{"id": file_id, "path": file_path}\<close>.\<close>

record file_detail =
  fd_id :: string
  fd_path :: string

text \<open>
  The dictionary that \<open>get_assistant_details\<close> builds and \<open>create_azure_assistant\<close>
  reads: a list of entries in insertion order, each entry a key of the program together
  with a value of the type the program stores under that key. The empty dictionary is the
  empty list.
\<close>

datatype entry =
    Id string
  | Name "string option"
  | Instructions "string option"
  | Model string
  | Tools "tool list"
  | File_details "file_detail list"

type_synonym details = "entry list"

fun key :: "entry \<Rightarrow> string" where
  "key (Id _) = ''id''"
| "key (Name _) = ''name''"
| "key (Instructions _) = ''instructions''"
| "key (Model _) = ''model''"
| "key (Tools _) = ''tools''"
| "key (File_details _) = ''file_details''"

text \<open>\<open>details.get(k)\<close> and \<open>details.get(k, [])\<close>, one reader for each key the source reads.\<close>

fun get_name :: "details \<Rightarrow> string option" where
  "get_name [] = None"
| "get_name (Name v # _) = v"
| "get_name (_ # d) = get_name d"

fun get_instructions :: "details \<Rightarrow> string option" where
  "get_instructions [] = None"
| "get_instructions (Instructions v # _) = v"
| "get_instructions (_ # d) = get_instructions d"

fun get_model :: "details \<Rightarrow> string option" where
  "get_model [] = None"
| "get_model (Model v # _) = Some v"
| "get_model (_ # d) = get_model d"

fun get_tools :: "details \<Rightarrow> tool list" where
  "get_tools [] = []"
| "get_tools (Tools v # _) = v"
| "get_tools (_ # d) = get_tools d"

fun get_file_details :: "details \<Rightarrow> file_detail list" where
  "get_file_details [] = []"
| "get_file_details (File_details v # _) = v"
| "get_file_details (_ # d) = get_file_details d"

text \<open>The keyword arguments of \<open>azure_client.beta.assistants.create\<close>.\<close>

record create_request =
  cr_name :: "string option"
  cr_instructions :: "string option"
  cr_model :: string
  cr_tools :: "tool list"
  cr_file_ids :: "string list"

subsection \<open>The two services, the file system and the program state\<close>

text \<open>A request sent to one of the two services.\<close>

datatype call =
    OpenAI_models_list
  | Azure_models_list
  | OpenAI_files_content string
  | OpenAI_files_retrieve string
  | OpenAI_assistants_list
  | OpenAI_assistants_retrieve string
  | Azure_files_create string bytes
  | Azure_assistants_create create_request

text \<open>
  What the outside world answers. Each answer may depend on the requests sent before it
  (the first argument), so a service may answer the same request differently later on.
  A paginated listing is the items it yields before it ends, and the exception that ends
  it if a page request fails; a listing whose first request fails yields no item.
  \<open>openai_models_list\<close> is the exception of the source's connection check, if any;
  \<open>azure_models_list\<close> gives the identifiers of the deployments;
  \<open>openai_files_retrieve\<close> gives the \<open>filename\<close> of the metadata;
  \<open>azure_files_create\<close> and \<open>azure_assistants_create\<close> give the \<open>id\<close> of the response.
  \<open>open_wb\<close> is the exception of \<open>open(path, "wb")\<close>, if any; \<open>open_rb\<close> is the
  exception that \<open>open(path, "rb")\<close> raises when there is no file at the path; and
  \<open>gettempdir\<close> is \<open>tempfile.gettempdir()\<close>.
\<close>

record services =
  openai_models_list :: "call list \<Rightarrow> exn option"
  azure_models_list :: "call list \<Rightarrow> exn + string list"
  openai_files_content :: "call list \<Rightarrow> string \<Rightarrow> exn + bytes"
  openai_files_retrieve :: "call list \<Rightarrow> string \<Rightarrow> exn + string option"
  openai_assistants_list :: "call list \<Rightarrow> assistant list \<times> exn option"
  openai_assistants_retrieve :: "call list \<Rightarrow> string \<Rightarrow> exn + assistant"
  azure_files_create :: "call list \<Rightarrow> string \<Rightarrow> bytes \<Rightarrow> exn + string"
  azure_assistants_create :: "call list \<Rightarrow> create_request \<Rightarrow> exn + string"
  open_wb :: "string \<Rightarrow> exn option"
  open_rb :: "string \<Rightarrow> exn"
  gettempdir :: string

datatype level = INFO | ERROR

text \<open>
  The state of a run: the requests sent so far, oldest first; the content of the local
  files; the lines logged, oldest first; the seconds spent in \<open>time.sleep\<close>.
\<close>

record state =
  calls :: "call list"
  files :: "string \<rightharpoonup> bytes"
  log :: "(level \<times> string) list"
  slept :: nat

definition logger_info :: "string \<Rightarrow> state \<Rightarrow> state" where
  "logger_info msg s = s\<lparr>log := log s @ [(INFO, msg)]\<rparr>"

definition logger_error :: "string \<Rightarrow> state \<Rightarrow> state" where
  "logger_error msg s = s\<lparr>log := log s @ [(ERROR, msg)]\<rparr>"

definition send :: "call \<Rightarrow> state \<Rightarrow> state" where
  "send c s = s\<lparr>calls := calls s @ [c]\<rparr>"

definition time_sleep :: "nat \<Rightarrow> state \<Rightarrow> state" where
  "time_sleep n s = s\<lparr>slept := slept s + n\<rparr>"

subsection \<open>AssistantMigrator\<close>

text \<open>
  \<open>__init__\<close> (lines 19-47): the two connection checks. The result is the exit status
  when a check fails and \<open>sys.exit(1)\<close> ends the process.
\<close>

definition AssistantMigrator_init :: "services \<Rightarrow> state \<Rightarrow> state \<times> nat option" where
  "AssistantMigrator_init srv s =
     (case openai_models_list srv (calls s) of
        Some e \<Rightarrow>
          (logger_error (''Failed to connect to OpenAI API: '' @ str_exn e)
             (send OpenAI_models_list s), Some 1)
      | None \<Rightarrow>
          (let s1 = logger_info ''Successfully connected to OpenAI API''
                      (send OpenAI_models_list s)
           in case azure_models_list srv (calls s1) of
                Inl e \<Rightarrow>
                  (logger_error (''Failed to connect to Azure OpenAI API: '' @ str_exn e)
                     (send Azure_models_list s1), Some 1)
              | Inr _ \<Rightarrow>
                  (logger_info ''Successfully connected to Azure OpenAI API''
                     (send Azure_models_list s1), None)))"

text \<open>\<open>_download_file\<close> (lines 49-69).\<close>

definition download_file :: "services \<Rightarrow> state \<Rightarrow> string \<Rightarrow> state \<times> (exn + string)" where
  "download_file srv s file_id =
     (let s1 = logger_info (''Downloading file '' @ file_id @ '' from OpenAI '' @ ellipsis) s
      in case openai_files_content srv (calls s1) file_id of
           Inl exc \<Rightarrow>
             (logger_error (''Unable to download file '' @ file_id @ '': '' @ str_exn exc)
                (send (OpenAI_files_content file_id) s1), Inl exc)
         | Inr file_bytes \<Rightarrow>
             (let s2 = send (OpenAI_files_content file_id) s1
              in case openai_files_retrieve srv (calls s2) file_id of
                   Inl exc \<Rightarrow> (send (OpenAI_files_retrieve file_id) s2, Inl exc)
                 | Inr meta_filename \<Rightarrow>
                     (let s3 = send (OpenAI_files_retrieve file_id) s2;
                          filename = (if truthy meta_filename then the meta_filename
                                      else file_id @ ''.bin'');
                          file_path = os_path_join (gettempdir srv) filename
                      in case open_wb srv file_path of
                           Some exc \<Rightarrow> (s3, Inl exc)
                         | None \<Rightarrow>
                             (logger_info (''Saved to '' @ file_path)
                                (s3\<lparr>files := (files s3)(file_path \<mapsto> file_bytes)\<rparr>),
                              Inr file_path))))"

text \<open>\<open>_upload_file_to_azure\<close> (lines 71-85).\<close>

definition upload_file_to_azure :: "services \<Rightarrow> state \<Rightarrow> string \<Rightarrow> state \<times> string option" where
  "upload_file_to_azure srv s file_path =
     (let s1 = logger_info (''Uploading file '' @ file_path @ '' to Azure OpenAI...'') s
      in case files s1 file_path of
           None \<Rightarrow>
             (logger_error
                (''Failed to upload file to Azure OpenAI: '' @ str_exn (open_rb srv file_path))
                s1, None)
         | Some f \<Rightarrow>
             (case azure_files_create srv (calls s1) file_path f of
                Inl e \<Rightarrow>
                  (logger_error (''Failed to upload file to Azure OpenAI: '' @ str_exn e)
                     (send (Azure_files_create file_path f) s1), None)
              | Inr response_id \<Rightarrow>
                  (logger_info (''File uploaded to Azure OpenAI with ID: '' @ response_id)
                     (send (Azure_files_create file_path f) s1), Some response_id)))"

text \<open>\<open>get_openai_assistants\<close> (lines 87-98): the whole listing is read inside the \<open>try\<close>.\<close>

definition get_openai_assistants :: "services \<Rightarrow> state \<Rightarrow> state \<times> assistant list" where
  "get_openai_assistants srv s =
     (let s1 = logger_info (''Fetching assistants from OpenAI '' @ ellipsis) s
      in case openai_assistants_list srv (calls s1) of
           (items, Some exc) \<Rightarrow>
             (logger_error (''Assistant fetch failed: '' @ str_exn exc)
                (send OpenAI_assistants_list s1), [])
         | (items, None) \<Rightarrow> (send OpenAI_assistants_list s1, items))"

text \<open>
  The loop of lines 107-113: download each attached file in order; the first exception
  leaves the loop.
\<close>

fun download_files ::
  "services \<Rightarrow> state \<Rightarrow> file_detail list \<Rightarrow> string list \<Rightarrow> state \<times> (exn + file_detail list)" where
  "download_files srv s file_details [] = (s, Inr file_details)"
| "download_files srv s file_details (file_id # file_ids) =
     (case download_file srv s file_id of
        (s1, Inl exc) \<Rightarrow> (s1, Inl exc)
      | (s1, Inr file_path) \<Rightarrow>
          download_files srv s1
            (file_details @ [\<lparr>fd_id = file_id, fd_path = file_path\<rparr>]) file_ids)"

text \<open>
  \<open>get_assistant_details\<close> (lines 100-125); \<open>details_failed\<close> is the log line of its
  handler (line 124).
\<close>

definition details_failed :: "string \<Rightarrow> exn \<Rightarrow> state \<Rightarrow> state" where
  "details_failed assistant_id e =
     logger_error (''Failed to fetch details for assistant '' @ assistant_id @ '': '' @ str_exn e)"

definition get_assistant_details :: "services \<Rightarrow> state \<Rightarrow> string \<Rightarrow> state \<times> details" where
  "get_assistant_details srv s assistant_id =
     (let s1 = logger_info (''Fetching details for assistant '' @ assistant_id @ ''...'') s
      in case openai_assistants_retrieve srv (calls s1) assistant_id of
           Inl e \<Rightarrow>
             (details_failed assistant_id e (send (OpenAI_assistants_retrieve assistant_id) s1), [])
         | Inr assistant \<Rightarrow>
             (case download_files srv (send (OpenAI_assistants_retrieve assistant_id) s1) []
                     (a_file_ids assistant) of
                (s2, Inl e) \<Rightarrow> (details_failed assistant_id e s2, [])
              | (s2, Inr file_details) \<Rightarrow>
                  (s2, [Id (a_id assistant), Name (a_name assistant),
                        Instructions (a_instructions assistant), Model (a_model assistant),
                        Tools (a_tools assistant), File_details file_details])))"

text \<open>
  The loop of lines 132-136: upload each downloaded file; a file whose upload gave no
  identifier is left out of \<open>azure_file_ids\<close>.
\<close>

fun upload_files ::
  "services \<Rightarrow> state \<Rightarrow> string list \<Rightarrow> file_detail list \<Rightarrow> state \<times> string list" where
  "upload_files srv s azure_file_ids [] = (s, azure_file_ids)"
| "upload_files srv s azure_file_ids (file_detail # rest) =
     (case upload_file_to_azure srv s (fd_path file_detail) of
        (s1, azure_file_id) \<Rightarrow>
          upload_files srv s1
            (if truthy azure_file_id then azure_file_ids @ [the azure_file_id] else azure_file_ids)
            rest)"

text \<open>
  Lines 143-149: the deployment to create the assistant on. \<open>requested\<close> is
  \<open>details.get("model")\<close>; the result \<open>None\<close> is the branch \<open>if not target_model\<close>.
\<close>

definition resolve_target_model :: "string option \<Rightarrow> string list \<Rightarrow> string option" where
  "resolve_target_model requested deployment_ids =
     (let target_model =
            (if (case requested of None \<Rightarrow> True | Some r \<Rightarrow> r \<notin> set deployment_ids) then
               (let gpt4 = find (\<lambda>d. str_contains ''gpt-4'' d) deployment_ids
                in py_or gpt4 (if deployment_ids \<noteq> [] then Some (hd deployment_ids) else None))
             else requested)
      in if \<not> truthy target_model then None else target_model)"

text \<open>\<open>create_azure_assistant\<close> (lines 127-166).\<close>

definition create_azure_assistant :: "services \<Rightarrow> state \<Rightarrow> details \<Rightarrow> state \<times> string option" where
  "create_azure_assistant srv s details =
     (let s1 = logger_info (''Creating assistant '' @ quote @ str_opt (get_name details) @ quote
                              @ '' on Azure OpenAI...'') s
      in case upload_files srv s1 [] (get_file_details details) of
           (s2, azure_file_ids) \<Rightarrow>
             (case azure_models_list srv (calls s2) of
                Inl exc \<Rightarrow>
                  (logger_error (''Azure assistant creation failed: '' @ str_exn exc)
                     (send Azure_models_list s2), None)
              | Inr deployment_ids \<Rightarrow>
                  (let s3 = send Azure_models_list s2
                   in case resolve_target_model (get_model details) deployment_ids of
                        None \<Rightarrow>
                          (logger_error ''No deployments available in Azure OpenAI.'' s3, None)
                      | Some target_model \<Rightarrow>
                          (let s4 = (if Some target_model \<noteq> get_model details
                                     then logger_info
                                            (''Using Azure deployment '' @ quote @ target_model
                                               @ quote @ '' instead of '' @ quote
                                               @ str_opt (get_model details) @ quote) s3
                                     else s3);
                               request = \<lparr>cr_name = get_name details,
                                          cr_instructions = get_instructions details,
                                          cr_model = target_model,
                                          cr_tools = get_tools details,
                                          cr_file_ids = azure_file_ids\<rparr>
                           in case azure_assistants_create srv (calls s4) request of
                                Inl exc \<Rightarrow>
                                  (logger_error
                                     (''Azure assistant creation failed: '' @ str_exn exc)
                                     (send (Azure_assistants_create request) s4), None)
                              | Inr response_id \<Rightarrow>
                                  (logger_info (''Created Azure assistant '' @ response_id)
                                     (send (Azure_assistants_create request) s4),
                                   Some response_id)))))"

text \<open>The body of the loop of \<open>migrate_all_assistants\<close> (lines 175-188), for one listed assistant.\<close>

definition migrate_one ::
  "services \<Rightarrow> state \<times> (string \<times> string) list \<Rightarrow> assistant \<Rightarrow> state \<times> (string \<times> string) list" where
  "migrate_one srv sm assistant =
     (case sm of (s, migration_map) \<Rightarrow>
        (let s1 = logger_info (''Migrating assistant: '' @ str_opt (a_name assistant)) s
         in case get_assistant_details srv s1 (a_id assistant) of
              (s2, details) \<Rightarrow>
                if details = [] then (s2, migration_map)
                else
                  (case create_azure_assistant srv s2 details of
                     (s3, azure_assistant_id) \<Rightarrow>
                       if truthy azure_assistant_id then
                         (time_sleep 1
                            (logger_info (''Successfully migrated '' @ a_id assistant @ '' ''
                                            @ rightarrow @ '' '' @ the azure_assistant_id) s3),
                          dict_set migration_map (a_id assistant) (the azure_assistant_id))
                       else
                         (time_sleep 1
                            (logger_error (''Failed to migrate assistant '' @ a_id assistant) s3),
                          migration_map))))"

text \<open>
  \<open>migrate_all_assistants\<close> (lines 168-190). The cursor is iterated outside any \<open>try\<close>:
  an exception of the listing leaves the function, and the mapping built so far with it.
\<close>

definition migrate_all_assistants ::
  "services \<Rightarrow> state \<Rightarrow> state \<times> (exn + (string \<times> string) list)" where
  "migrate_all_assistants srv s =
     (case openai_assistants_list srv (calls s) of
        (items, failure) \<Rightarrow>
          (case foldl (migrate_one srv) (send OpenAI_assistants_list s, []) items of
             (s1, migration_map) \<Rightarrow>
               (case failure of
                  Some exc \<Rightarrow> (s1, Inl exc)
                | None \<Rightarrow> (s1, Inr migration_map))))"

subsection \<open>main\<close>

text \<open>How the process ends.\<close>

datatype outcome = Returned | SystemExit nat | Uncaught exn

fun exit_status :: "outcome \<Rightarrow> nat" where
  "exit_status Returned = 0"
| "exit_status (SystemExit n) = n"
| "exit_status (Uncaught _) = 1"

definition missing_variables_message :: string where
  "missing_variables_message =
     ''Please set the following environment variables:'' @ [CHR 0x0A]
     @ ''- OPENAI_API_KEY'' @ [CHR 0x0A]
     @ ''- AZURE_OPENAI_API_KEY'' @ [CHR 0x0A]
     @ ''- AZURE_OPENAI_ENDPOINT''"

fun log_summary :: "(string \<times> string) list \<Rightarrow> state \<Rightarrow> state" where
  "log_summary [] s = s"
| "log_summary ((source_id, target_id) # rest) s =
     log_summary rest
       (logger_info (''- '' @ source_id @ '' '' @ rightarrow @ '' '' @ target_id) s)"

text \<open>\<open>main\<close> (lines 192-220), given the process environment.\<close>

definition main :: "services \<Rightarrow> (string \<rightharpoonup> string) \<Rightarrow> state \<Rightarrow> state \<times> outcome" where
  "main srv environ s =
     (let openai_api_key = environ ''OPENAI_API_KEY'';
          azure_api_key = environ ''AZURE_OPENAI_API_KEY'';
          azure_endpoint = environ ''AZURE_OPENAI_ENDPOINT''
      in if \<not> (truthy openai_api_key \<and> truthy azure_api_key \<and> truthy azure_endpoint)
         then (logger_error missing_variables_message s, SystemExit 1)
         else
           (case AssistantMigrator_init srv s of
              (s1, Some status) \<Rightarrow> (s1, SystemExit status)
            | (s1, None) \<Rightarrow>
                (case migrate_all_assistants srv s1 of
                   (s2, Inl exc) \<Rightarrow> (s2, Uncaught exc)
                 | (s2, Inr migration_results) \<Rightarrow>
                     (logger_info
                        (''Successfully migrated '' @ str_nat (length migration_results)
                           @ '' assistants'')
                        (log_summary migration_results
                           (logger_info ''Migration summary:''
                              (logger_info ''Migration completed!'' s2))),
                      Returned))))"

section \<open>Notions used to state the properties\<close>

subsection \<open>Model resolution as the specification words it\<close>

text \<open>
  \<open>resolveDestinationModel(requested, availableDeployments)\<close>, following the words of the
  specification: the requested model if it is present verbatim, else the first available
  deployment whose identifier contains the substring \<open>gpt-4\<close>, else the first available
  deployment, else a failure.
\<close>

definition resolveDestinationModel :: "string \<Rightarrow> string list \<Rightarrow> string option" where
  "resolveDestinationModel requested availableDeployments =
     (if requested \<in> set availableDeployments then Some requested
      else case find (\<lambda>d. sublist ''gpt-4'' d) availableDeployments of
             Some d \<Rightarrow> Some d
           | None \<Rightarrow> (case availableDeployments of [] \<Rightarrow> None | d # _ \<Rightarrow> Some d))"

subsection \<open>Observing one run\<close>

text \<open>Kinds of requests.\<close>

fun is_create :: "call \<Rightarrow> bool" where
  "is_create (Azure_assistants_create _) = True"
| "is_create _ = False"

fun is_upload :: "call \<Rightarrow> bool" where
  "is_upload (Azure_files_create _ _) = True"
| "is_upload _ = False"

text \<open>The dictionary of line 115, and the request of line 155.\<close>

definition full_details :: "assistant \<Rightarrow> file_detail list \<Rightarrow> details" where
  "full_details a file_details =
     [Id (a_id a), Name (a_name a), Instructions (a_instructions a), Model (a_model a),
      Tools (a_tools a), File_details file_details]"

definition the_request :: "details \<Rightarrow> string \<Rightarrow> string list \<Rightarrow> create_request" where
  "the_request d target_model azure_file_ids =
     \<lparr>cr_name = get_name d, cr_instructions = get_instructions d, cr_model = target_model,
      cr_tools = get_tools d, cr_file_ids = azure_file_ids\<rparr>"

text \<open>The state in which \<open>get_assistant_details\<close> sends its first request (after line 102).\<close>

definition fetching :: "string \<Rightarrow> state \<Rightarrow> state" where
  "fetching assistant_id s =
     logger_info (''Fetching details for assistant '' @ assistant_id @ ''...'') s"

text \<open>The state in which \<open>create_azure_assistant\<close> starts its uploads (after line 129).\<close>

definition creating :: "details \<Rightarrow> state \<Rightarrow> state" where
  "creating d s =
     logger_info (''Creating assistant '' @ quote @ str_opt (get_name d) @ quote
                    @ '' on Azure OpenAI...'') s"

text \<open>
  Lines 175-177 for a listed assistant that the loop reaches in state \<open>s\<close>: the state after
  the retrieval of its details, and the dictionary retrieved.
\<close>

definition fetch_details :: "services \<Rightarrow> state \<Rightarrow> assistant \<Rightarrow> state \<times> details" where
  "fetch_details srv s a =
     get_assistant_details srv
       (logger_info (''Migrating assistant: '' @ str_opt (a_name a)) s) (a_id a)"

text \<open>
  The retrieval of an assistant's details fails when an exception reaches the handler of
  line 123: the retrieval request raised, or the download of an attached file did.
\<close>

definition details_retrieval_failed :: "services \<Rightarrow> state \<Rightarrow> string \<Rightarrow> bool" where
  "details_retrieval_failed srv s assistant_id =
     (case openai_assistants_retrieve srv (calls s) assistant_id of
        Inl e \<Rightarrow> True
      | Inr a \<Rightarrow>
          (case download_files srv
                  (send (OpenAI_assistants_retrieve assistant_id) (fetching assistant_id s))
                  [] (a_file_ids a) of
             (s2, Inl e) \<Rightarrow> True
           | (s2, Inr file_details) \<Rightarrow> False))"

text \<open>
  What the services answer decides which steps fail; the notions below read the failure
  of a step off these answers, at the requests sent so far.

  The local path of a downloaded file, from its identifier and the file name of its
  metadata.
\<close>

definition local_path :: "services \<Rightarrow> string \<Rightarrow> string option \<Rightarrow> string" where
  "local_path srv file_id meta_filename =
     os_path_join (gettempdir srv)
       (if truthy meta_filename then the meta_filename else file_id @ ''.bin'')"

text \<open>
  The download of a file fails, after the requests \<open>h\<close>: the content request raises, or the
  metadata request that follows it raises, or the local file cannot be opened for writing.
\<close>

definition download_fails :: "services \<Rightarrow> call list \<Rightarrow> string \<Rightarrow> bool" where
  "download_fails srv h file_id =
     (case openai_files_content srv h file_id of
        Inl e \<Rightarrow> True
      | Inr file_bytes \<Rightarrow>
          (case openai_files_retrieve srv (h @ [OpenAI_files_content file_id]) file_id of
             Inl e \<Rightarrow> True
           | Inr meta_filename \<Rightarrow> open_wb srv (local_path srv file_id meta_filename) \<noteq> None))"

text \<open>
  One of the files fails to download, when they are downloaded in order after the
  requests \<open>h\<close>; a download that succeeds has sent its two requests.
\<close>

fun some_download_fails :: "services \<Rightarrow> call list \<Rightarrow> string list \<Rightarrow> bool" where
  "some_download_fails srv h [] = False"
| "some_download_fails srv h (file_id # file_ids) =
     (download_fails srv h file_id
      \<or> some_download_fails srv
           (h @ [OpenAI_files_content file_id, OpenAI_files_retrieve file_id]) file_ids)"

text \<open>
  The retrieval of the details of an assistant fails, after the requests \<open>h\<close>: the
  retrieval request raises, or one of the attached files fails to download.
\<close>

definition retrieval_fails :: "services \<Rightarrow> call list \<Rightarrow> string \<Rightarrow> bool" where
  "retrieval_fails srv h assistant_id =
     (case openai_assistants_retrieve srv h assistant_id of
        Inl e \<Rightarrow> True
      | Inr a \<Rightarrow>
          some_download_fails srv (h @ [OpenAI_assistants_retrieve assistant_id]) (a_file_ids a))"

text \<open>
  The creation of the destination assistant fails, for a listed assistant that the loop
  reaches in state \<open>s\<close>: after the uploads the deployments cannot be listed, or no
  deployment is resolved, or the creation request raises or gives no identifier.
\<close>

definition creation_fails :: "services \<Rightarrow> state \<Rightarrow> assistant \<Rightarrow> bool" where
  "creation_fails srv s a =
     (case fetch_details srv s a of
        (s2, details) \<Rightarrow>
          (case upload_files srv (creating details s2) [] (get_file_details details) of
             (s3, azure_file_ids) \<Rightarrow>
               (case azure_models_list srv (calls s3) of
                  Inl e \<Rightarrow> True
                | Inr deployment_ids \<Rightarrow>
                    (case resolve_target_model (get_model details) deployment_ids of
                       None \<Rightarrow> True
                     | Some target_model \<Rightarrow>
                         (case azure_assistants_create srv (calls s3 @ [Azure_models_list])
                                 (the_request details target_model azure_file_ids) of
                            Inl e \<Rightarrow> True
                          | Inr response_id \<Rightarrow> response_id = [])))))"

text \<open>
  A step of the migration of one listed assistant fails, when the loop reaches it in state
  \<open>s\<close>: the retrieval of its details fails (the request, or a file download), or its
  creation does (the listing of the deployments, the resolution, or the creation
  request). The upload of a file is not among these steps.
\<close>

definition item_fails :: "services \<Rightarrow> state \<Rightarrow> assistant \<Rightarrow> bool" where
  "item_fails srv s a = (retrieval_fails srv (calls s) (a_id a) \<or> creation_fails srv s a)"

text \<open>
  What the upload of the local file at \<open>path\<close> gives in state \<open>s\<close>: the exception of
  \<open>open\<close> or of the request, or the identifier of the response.
\<close>

definition upload_answer :: "services \<Rightarrow> state \<Rightarrow> string \<Rightarrow> exn + string" where
  "upload_answer srv s path =
     (case files s path of
        None \<Rightarrow> Inl (open_rb srv path)
      | Some f \<Rightarrow> azure_files_create srv (calls s) path f)"

text \<open>
  For each entry of the listing, in order, whether the retrieval of its details fails when
  the loop that starts in \<open>sm\<close> reaches it.
\<close>

fun retrieval_failures ::
  "services \<Rightarrow> state \<times> (string \<times> string) list \<Rightarrow> assistant list \<Rightarrow> bool list" where
  "retrieval_failures srv sm [] = []"
| "retrieval_failures srv sm (a # items) =
     retrieval_fails srv (calls (fst sm)) (a_id a)
     # retrieval_failures srv (migrate_one srv sm a) items"

text \<open>The number \<open>M\<close> of entries whose retrieval fails in that run.\<close>

definition failures_in_run ::
  "services \<Rightarrow> state \<times> (string \<times> string) list \<Rightarrow> assistant list \<Rightarrow> nat" where
  "failures_in_run srv sm items =
     length (filter (\<lambda>failed. failed) (retrieval_failures srv sm items))"

text \<open>The entries whose details are fetched in that run, in listing order.\<close>

definition fetched_in_run ::
  "services \<Rightarrow> state \<times> (string \<times> string) list \<Rightarrow> assistant list \<Rightarrow> assistant list" where
  "fetched_in_run srv sm items =
     map fst (filter (\<lambda>(a, failed). \<not> failed) (zip items (retrieval_failures srv sm items)))"

text \<open>
  In that run, for every entry whose details are fetched, the creation of the destination
  assistant succeeds.
\<close>

fun creations_succeed ::
  "services \<Rightarrow> state \<times> (string \<times> string) list \<Rightarrow> assistant list \<Rightarrow> bool" where
  "creations_succeed srv sm [] = True"
| "creations_succeed srv sm (a # items) =
     ((retrieval_fails srv (calls (fst sm)) (a_id a) \<or> \<not> creation_fails srv (fst sm) a)
      \<and> creations_succeed srv (migrate_one srv sm a) items)"

text \<open>
  For each entry of the listing, in order: its identifier, and the number of creation
  requests sent while the body of the loop handles it, in the run that starts in \<open>sm\<close>.
\<close>

fun entry_creations ::
  "services \<Rightarrow> state \<times> (string \<times> string) list \<Rightarrow> assistant list \<Rightarrow> (string \<times> nat) list" where
  "entry_creations srv sm [] = []"
| "entry_creations srv sm (a # items) =
     (a_id a,
      length (filter is_create (calls (fst (migrate_one srv sm a))))
        - length (filter is_create (calls (fst sm))))
     # entry_creations srv (migrate_one srv sm a) items"

subsection \<open>Example worlds\<close>

text \<open>Two source assistants: one with two attached files, one with none.\<close>

definition asst_helper :: assistant where
  "asst_helper =
     \<lparr>a_id = ''asst_1'', a_name = Some ''Helper'', a_instructions = None, a_model = ''gpt-4o'',
      a_tools = [Tool ''retrieval''], a_file_ids = [''file_1'', ''file_2'']\<rparr>"

definition asst_plain :: assistant where
  "asst_plain =
     \<lparr>a_id = ''asst_2'', a_name = None, a_instructions = Some ''Be brief'',
      a_model = ''gpt-5-preview'', a_tools = [], a_file_ids = []\<rparr>"

text \<open>
  A world in which every request succeeds. Both attached files carry the same file name;
  the destination numbers what it creates.
\<close>

definition example_services :: services where
  "example_services =
     \<lparr>openai_models_list = (\<lambda>h. None),
      azure_models_list = (\<lambda>h. Inr [''gpt-3.5'', ''gpt-4-turbo'']),
      openai_files_content = (\<lambda>h file_id. Inr (''content of '' @ file_id)),
      openai_files_retrieve = (\<lambda>h file_id. Inr (Some ''notes.txt'')),
      openai_assistants_list = (\<lambda>h. ([asst_helper, asst_plain], None)),
      openai_assistants_retrieve =
        (\<lambda>h i. if i = ''asst_1'' then Inr asst_helper
               else if i = ''asst_2'' then Inr asst_plain
               else Inl (Exception ''No assistant found'')),
      azure_files_create = (\<lambda>h p b. Inr (''file-'' @ str_nat (length h))),
      azure_assistants_create = (\<lambda>h r. Inr (''asst_az_'' @ str_nat (length h))),
      open_wb = (\<lambda>p. None),
      open_rb = (\<lambda>p. Exception (''No such file or directory: '' @ p)),
      gettempdir = ''/tmp''\<rparr>"

definition initial_state :: state where
  "initial_state = \<lparr>calls = [], files = Map.empty, log = [], slept = 0\<rparr>"

text \<open>The same world with a destination whose only deployment has an empty identifier.\<close>

definition unnamed_deployment_services :: services where
  "unnamed_deployment_services = example_services\<lparr>azure_models_list := (\<lambda>h. Inr [[]])\<rparr>"

text \<open>The same world with a destination that refuses every file.\<close>

definition upload_refused_services :: services where
  "upload_refused_services =
     example_services\<lparr>azure_files_create := (\<lambda>h p b. Inl (Exception ''upload refused''))\<rparr>"

text \<open>The same world with a source whose listing request fails.\<close>

definition listing_fails_services :: services where
  "listing_fails_services =
     example_services\<lparr>openai_assistants_list := (\<lambda>h. ([], Some (Exception ''listing failed'')))\<rparr>"

text \<open>The same world with a source that cannot retrieve the first assistant.\<close>

definition retrieve_fails_services :: services where
  "retrieve_fails_services =
     example_services\<lparr>openai_assistants_retrieve :=
        (\<lambda>h i. if i = ''asst_2'' then Inr asst_plain else Inl (Exception ''No assistant found''))\<rparr>"

text \<open>The same world with a source that lists the second assistant twice.\<close>

definition repeated_listing_services :: services where
  "repeated_listing_services =
     example_services\<lparr>openai_assistants_list :=
        (\<lambda>h. ([asst_helper, asst_plain, asst_plain], None))\<rparr>"

text \<open>The same world with a source whose files have no file name.\<close>

definition unnamed_files_services :: services where
  "unnamed_files_services = example_services\<lparr>openai_files_retrieve := (\<lambda>h file_id. Inr None)\<rparr>"

text \<open>A complete process environment, and one without the source key.\<close>

definition full_environ :: "string \<rightharpoonup> string" where
  "full_environ =
     [''OPENAI_API_KEY'' \<mapsto> ''sk-1'', ''AZURE_OPENAI_API_KEY'' \<mapsto> ''az-1'',
      ''AZURE_OPENAI_ENDPOINT'' \<mapsto> ''https://example.openai.azure.com'']"

definition environ_without_source_key :: "string \<rightharpoonup> string" where
  "environ_without_source_key =
     [''AZURE_OPENAI_API_KEY'' \<mapsto> ''az-1'',
      ''AZURE_OPENAI_ENDPOINT'' \<mapsto> ''https://example.openai.azure.com'']"

section \<open>Properties\<close>

subsection \<open>The state after a log line, a request or a pause\<close>

lemma logger_info_simps [simp]:
  "calls (logger_info msg s) = calls s"
  "files (logger_info msg s) = files s"
  "slept (logger_info msg s) = slept s"
  "log (logger_info msg s) = log s @ [(INFO, msg)]"
  by (simp_all add: logger_info_def)

lemma logger_error_simps [simp]:
  "calls (logger_error msg s) = calls s"
  "files (logger_error msg s) = files s"
  "slept (logger_error msg s) = slept s"
  "log (logger_error msg s) = log s @ [(ERROR, msg)]"
  by (simp_all add: logger_error_def)

lemma send_simps [simp]:
  "calls (send c s) = calls s @ [c]"
  "files (send c s) = files s"
  "slept (send c s) = slept s"
  "log (send c s) = log s"
  by (simp_all add: send_def)

lemma time_sleep_simps [simp]:
  "calls (time_sleep n s) = calls s"
  "files (time_sleep n s) = files s"
  "slept (time_sleep n s) = slept s + n"
  "log (time_sleep n s) = log s"
  by (simp_all add: time_sleep_def)

lemma details_failed_simps [simp]:
  "calls (details_failed i e s) = calls s"
  "files (details_failed i e s) = files s"
  "slept (details_failed i e s) = slept s"
  "log (details_failed i e s) =
     log s @ [(ERROR, ''Failed to fetch details for assistant '' @ i @ '': '' @ str_exn e)]"
  by (simp_all add: details_failed_def)

lemma fetching_simps [simp]:
  "calls (fetching i s) = calls s"
  "files (fetching i s) = files s"
  "slept (fetching i s) = slept s"
  "log (fetching i s) = log s @ [(INFO, ''Fetching details for assistant '' @ i @ ''...'')]"
  by (simp_all add: fetching_def)

lemma creating_simps [simp]:
  "calls (creating d s) = calls s"
  "files (creating d s) = files s"
  "slept (creating d s) = slept s"
  "log (creating d s) = log s @ [(INFO, ''Creating assistant '' @ quote @ str_opt (get_name d)
      @ quote @ '' on Azure OpenAI...'')]"
  by (simp_all add: creating_def)

lemma str_contains_sublist: "str_contains needle hay = sublist needle hay"
  by (induction hay) (auto simp: sublist_Cons_right)

lemma dict_set_keys:
  "map fst (dict_set m k v) = (if k \<in> fst ` set m then map fst m else map fst m @ [k])"
  by (induction m k v rule: dict_set.induct) auto

lemma dict_set_distinct: "distinct (map fst m) \<Longrightarrow> distinct (map fst (dict_set m k v))"
  by (simp add: dict_set_keys)

lemma dict_set_lookup: "map_of (dict_set m k v) = (map_of m)(k \<mapsto> v)"
  by (induction m k v rule: dict_set.induct) auto

subsection \<open>Downloading one file\<close>

lemma download_file_Inr:
  assumes "download_file srv s f = (s', Inr p)"
  shows "\<exists>b mf. openai_files_content srv (calls s) f = Inr b
           \<and> openai_files_retrieve srv (calls s @ [OpenAI_files_content f]) f = Inr mf
           \<and> open_wb srv p = None
           \<and> p = os_path_join (gettempdir srv) (if truthy mf then the mf else f @ ''.bin'')
           \<and> files s' = (files s)(p \<mapsto> b)
           \<and> calls s' = calls s @ [OpenAI_files_content f, OpenAI_files_retrieve f]"
  using assms
  by (auto simp: download_file_def Let_def split: sum.splits option.splits)

lemma download_file_Inl:
  assumes "download_file srv s f = (s', Inl e)"
  shows "(openai_files_content srv (calls s) f = Inl e
          \<or> (\<exists>b. openai_files_content srv (calls s) f = Inr b
                \<and> (openai_files_retrieve srv (calls s @ [OpenAI_files_content f]) f = Inl e
                    \<or> (\<exists>mf. openai_files_retrieve srv (calls s @ [OpenAI_files_content f]) f = Inr mf
                          \<and> open_wb srv (os_path_join (gettempdir srv)
                               (if truthy mf then the mf else f @ ''.bin'')) = Some e))))"
  using assms
  by (auto simp: download_file_def Let_def split: sum.splits option.splits)

lemma download_file_slept [simp]: "slept (fst (download_file srv s f)) = slept s"
  by (auto simp: download_file_def Let_def split: sum.splits option.splits)

lemma download_file_filter:
  assumes "\<not> P (OpenAI_files_content f)" "\<not> P (OpenAI_files_retrieve f)"
  shows "filter P (calls (fst (download_file srv s f))) = filter P (calls s)"
  using assms
  by (auto simp: download_file_def Let_def split: sum.splits option.splits)

lemma download_file_log:
  "\<exists>new. log (fst (download_file srv s f)) = log s @ new"
  by (auto simp: download_file_def Let_def split: sum.splits option.splits)

subsection \<open>Downloading the attached files\<close>

lemma download_files_slept [simp]: "slept (fst (download_files srv s acc fs)) = slept s"
proof (induction fs arbitrary: s acc)
  case Nil
  show ?case by simp
next
  case (Cons f fs)
  obtain s1 r where d: "download_file srv s f = (s1, r)" by (cases "download_file srv s f")
  have "slept s1 = slept s" using download_file_slept [of srv s f] d by simp
  with Cons d show ?case by (cases r) simp_all
qed

lemma download_files_filter:
  assumes "\<And>f. \<not> P (OpenAI_files_content f)" "\<And>f. \<not> P (OpenAI_files_retrieve f)"
  shows "filter P (calls (fst (download_files srv s acc fs))) = filter P (calls s)"
proof (induction fs arbitrary: s acc)
  case Nil
  show ?case by simp
next
  case (Cons f fs)
  obtain s1 r where d: "download_file srv s f = (s1, r)" by (cases "download_file srv s f")
  have "filter P (calls s1) = filter P (calls s)"
    using download_file_filter [of P f srv s] assms d by simp
  with Cons d show ?case by (cases r) simp_all
qed

lemma download_files_log: "\<exists>new. log (fst (download_files srv s acc fs)) = log s @ new"
proof (induction fs arbitrary: s acc)
  case Nil
  show ?case by simp
next
  case (Cons f fs)
  obtain s1 r where d: "download_file srv s f = (s1, r)" by (cases "download_file srv s f")
  obtain n1 where n1: "log s1 = log s @ n1" using download_file_log [of srv s f] d by auto
  show ?case
  proof (cases r)
    case (Inl e)
    with d n1 show ?thesis by simp
  next
    case (Inr p)
    obtain n2 where "log (fst (download_files srv s1 (acc @ [\<lparr>fd_id = f, fd_path = p\<rparr>]) fs)) = log s1 @ n2"
      using Cons by blast
    with d n1 Inr show ?thesis by simp
  qed
qed

lemma download_files_Nil [simp]: "download_files srv s acc [] = (s, Inr acc)"
  by simp

subsection \<open>Retrieving the details of an assistant\<close>


lemma get_assistant_details_cases:
  "(\<exists>e. openai_assistants_retrieve srv (calls s) i = Inl e
        \<and> get_assistant_details srv s i =
            (details_failed i e (send (OpenAI_assistants_retrieve i)
               (fetching i s)), []))
   \<or> (\<exists>a s2 e. openai_assistants_retrieve srv (calls s) i = Inr a
        \<and> download_files srv (send (OpenAI_assistants_retrieve i)
               (fetching i s)) [] (a_file_ids a) = (s2, Inl e)
        \<and> get_assistant_details srv s i = (details_failed i e s2, []))
   \<or> (\<exists>a s2 fds. openai_assistants_retrieve srv (calls s) i = Inr a
        \<and> download_files srv (send (OpenAI_assistants_retrieve i)
               (fetching i s)) [] (a_file_ids a) = (s2, Inr fds)
        \<and> get_assistant_details srv s i = (s2, full_details a fds))"
  by (auto simp: get_assistant_details_def full_details_def fetching_def Let_def split: sum.splits prod.splits)

lemma get_assistant_details_slept [simp]: "slept (fst (get_assistant_details srv s i)) = slept s"
  using get_assistant_details_cases [of srv s i]
  by (auto dest: arg_cong [where f = "\<lambda>x. slept (fst x)"])

lemma get_assistant_details_filter:
  assumes "\<And>f. \<not> P (OpenAI_files_content f)" "\<And>f. \<not> P (OpenAI_files_retrieve f)"
  shows "filter P (calls (fst (get_assistant_details srv s i)))
           = filter P (calls s) @ filter P [OpenAI_assistants_retrieve i]"
proof -
  let ?s1 = "send (OpenAI_assistants_retrieve i)
               (fetching i s)"
  have dl: "filter P (calls (fst (download_files srv ?s1 [] fs))) = filter P (calls ?s1)" for fs
    using download_files_filter [of P srv ?s1 "[]" fs] assms by blast
  show ?thesis
    using get_assistant_details_cases [of srv s i]
  proof (elim disjE exE conjE)
    fix e
    assume "get_assistant_details srv s i = (details_failed i e ?s1, [])"
    then show ?thesis by simp
  next
    fix a s2 e
    assume "download_files srv ?s1 [] (a_file_ids a) = (s2, Inl e)"
      and g: "get_assistant_details srv s i = (details_failed i e s2, [])"
    with dl [of "a_file_ids a"] show ?thesis by simp
  next
    fix a s2 fds
    assume "download_files srv ?s1 [] (a_file_ids a) = (s2, Inr fds)"
      and g: "get_assistant_details srv s i = (s2, full_details a fds)"
    with dl [of "a_file_ids a"] show ?thesis by simp
  qed
qed

lemma get_assistant_details_empty_logs_error:
  assumes "get_assistant_details srv s i = (s', [])"
  shows "\<exists>old e. log s' = log s @ old @ [(ERROR, ''Failed to fetch details for assistant '' @ i @ '': '' @ str_exn e)]"
proof -
  let ?s1 = "send (OpenAI_assistants_retrieve i)
               (fetching i s)"
  show ?thesis
    using get_assistant_details_cases [of srv s i]
  proof (elim disjE exE conjE)
    fix e
    assume "get_assistant_details srv s i = (details_failed i e ?s1, [])"
    with assms have "s' = details_failed i e ?s1" by simp
    then have "log s' = log s @ [(INFO, ''Fetching details for assistant '' @ i @ ''...'')]
        @ [(ERROR, ''Failed to fetch details for assistant '' @ i @ '': '' @ str_exn e)]"
      by simp
    then show ?thesis by blast
  next
    fix a s2 e
    assume d: "download_files srv ?s1 [] (a_file_ids a) = (s2, Inl e)"
      and g: "get_assistant_details srv s i = (details_failed i e s2, [])"
    obtain new where "log s2 = log ?s1 @ new"
      using download_files_log [of srv ?s1 "[]" "a_file_ids a"] d by auto
    moreover from g assms have "s' = details_failed i e s2" by simp
    ultimately have "log s' = log s @ ((INFO, ''Fetching details for assistant '' @ i @ ''...'') # new)
        @ [(ERROR, ''Failed to fetch details for assistant '' @ i @ '': '' @ str_exn e)]"
      by simp
    then show ?thesis by blast
  next
    fix a s2 fds
    assume "get_assistant_details srv s i = (s2, full_details a fds)"
    with assms show ?thesis by (simp add: full_details_def)
  qed
qed

lemma get_assistant_details_empty_iff:
  "snd (get_assistant_details srv s i) = [] \<longleftrightarrow> details_retrieval_failed srv s i"
  using get_assistant_details_cases [of srv s i]
  by (auto simp: details_retrieval_failed_def full_details_def)

lemma get_assistant_details_full:
  assumes "snd (get_assistant_details srv s i) \<noteq> []"
  shows "\<exists>a fds. openai_assistants_retrieve srv (calls s) i = Inr a
           \<and> snd (get_assistant_details srv s i) = full_details a fds"
  using get_assistant_details_cases [of srv s i] assms by auto

subsection \<open>Failures, read off the answers of the services\<close>

lemma download_file_fails_iff:
  "(\<exists>e. snd (download_file srv s f) = Inl e) \<longleftrightarrow> download_fails srv (calls s) f"
  by (auto simp: download_file_def download_fails_def local_path_def Let_def
        split: sum.splits option.splits)

lemma download_file_succeeds_calls:
  assumes "snd (download_file srv s f) = Inr p"
  shows "calls (fst (download_file srv s f))
           = calls s @ [OpenAI_files_content f, OpenAI_files_retrieve f]"
proof -
  from assms have "download_file srv s f = (fst (download_file srv s f), Inr p)"
    by (metis prod.collapse)
  from download_file_Inr [OF this] show ?thesis by auto
qed

lemma download_files_fails_iff:
  "(\<exists>e. snd (download_files srv s acc fs) = Inl e) \<longleftrightarrow> some_download_fails srv (calls s) fs"
proof (induction fs arbitrary: s acc)
  case Nil
  show ?case by simp
next
  case (Cons f fs)
  obtain s1 r where d: "download_file srv s f = (s1, r)" by (cases "download_file srv s f")
  show ?case
  proof (cases r)
    case (Inl e)
    with d have "download_fails srv (calls s) f"
      using download_file_fails_iff [of srv s f] by auto
    with d Inl show ?thesis by simp
  next
    case (Inr p)
    with d have ok: "\<not> download_fails srv (calls s) f"
      using download_file_fails_iff [of srv s f] by auto
    from d Inr have "calls s1 = calls s @ [OpenAI_files_content f, OpenAI_files_retrieve f]"
      using download_file_succeeds_calls [of srv s f p] by simp
    with Cons [of s1 "acc @ [\<lparr>fd_id = f, fd_path = p\<rparr>]"] d Inr ok show ?thesis by simp
  qed
qed

lemma details_retrieval_failed_iff:
  "details_retrieval_failed srv s i \<longleftrightarrow> retrieval_fails srv (calls s) i"
proof (cases "openai_assistants_retrieve srv (calls s) i")
  case (Inl e)
  then show ?thesis by (simp add: details_retrieval_failed_def retrieval_fails_def)
next
  case (Inr a)
  let ?s1 = "send (OpenAI_assistants_retrieve i) (fetching i s)"
  have "(\<exists>e. snd (download_files srv ?s1 [] (a_file_ids a)) = Inl e)
      \<longleftrightarrow> some_download_fails srv (calls s @ [OpenAI_assistants_retrieve i]) (a_file_ids a)"
    using download_files_fails_iff [of srv ?s1 "[]" "a_file_ids a"] by simp
  moreover have "details_retrieval_failed srv s i
      \<longleftrightarrow> (\<exists>e. snd (download_files srv ?s1 [] (a_file_ids a)) = Inl e)"
    using Inr by (auto simp: details_retrieval_failed_def split: prod.splits sum.splits)
  ultimately show ?thesis using Inr by (simp add: retrieval_fails_def)
qed

lemma get_assistant_details_empty_iff_fails:
  "snd (get_assistant_details srv s i) = [] \<longleftrightarrow> retrieval_fails srv (calls s) i"
  by (simp add: get_assistant_details_empty_iff details_retrieval_failed_iff)

subsection \<open>Uploading files\<close>

lemma upload_file_to_azure_slept [simp]: "slept (fst (upload_file_to_azure srv s p)) = slept s"
  by (auto simp: upload_file_to_azure_def Let_def split: sum.splits option.splits)

lemma upload_file_to_azure_filter:
  assumes "\<And>p b. \<not> P (Azure_files_create p b)"
  shows "filter P (calls (fst (upload_file_to_azure srv s p))) = filter P (calls s)"
  using assms
  by (auto simp: upload_file_to_azure_def Let_def split: sum.splits option.splits)

lemma upload_files_slept [simp]: "slept (fst (upload_files srv s acc fds)) = slept s"
proof (induction fds arbitrary: s acc)
  case Nil
  show ?case by simp
next
  case (Cons fd fds)
  obtain s1 r where u: "upload_file_to_azure srv s (fd_path fd) = (s1, r)"
    by (cases "upload_file_to_azure srv s (fd_path fd)")
  have "slept s1 = slept s" using upload_file_to_azure_slept [of srv s "fd_path fd"] u by simp
  with Cons u show ?case by simp
qed

lemma upload_files_filter:
  assumes "\<And>p b. \<not> P (Azure_files_create p b)"
  shows "filter P (calls (fst (upload_files srv s acc fds))) = filter P (calls s)"
proof (induction fds arbitrary: s acc)
  case Nil
  show ?case by simp
next
  case (Cons fd fds)
  obtain s1 r where u: "upload_file_to_azure srv s (fd_path fd) = (s1, r)"
    by (cases "upload_file_to_azure srv s (fd_path fd)")
  have "filter P (calls s1) = filter P (calls s)"
    using upload_file_to_azure_filter [of P srv s "fd_path fd"] assms u by simp
  with Cons u show ?case by simp
qed

subsection \<open>Creating the destination assistant\<close>

text \<open>One lemma for each way out of \<open>create_azure_assistant\<close>.\<close>

lemma create_azure_assistant_models_error:
  assumes "upload_files srv (creating d s) [] (get_file_details d) = (s2, fids)"
    and "azure_models_list srv (calls s2) = Inl exc"
  shows "create_azure_assistant srv s d =
           (logger_error (''Azure assistant creation failed: '' @ str_exn exc)
              (send Azure_models_list s2), None)"
  using assms by (simp add: create_azure_assistant_def creating_def)

lemma create_azure_assistant_no_model:
  assumes "upload_files srv (creating d s) [] (get_file_details d) = (s2, fids)"
    and "azure_models_list srv (calls s2) = Inr ids"
    and "resolve_target_model (get_model d) ids = None"
  shows "create_azure_assistant srv s d =
           (logger_error ''No deployments available in Azure OpenAI.''
              (send Azure_models_list s2), None)"
  using assms by (simp add: create_azure_assistant_def creating_def)

lemma create_azure_assistant_create_error:
  assumes "upload_files srv (creating d s) [] (get_file_details d) = (s2, fids)"
    and "azure_models_list srv (calls s2) = Inr ids"
    and "resolve_target_model (get_model d) ids = Some m"
    and "azure_assistants_create srv (calls s2 @ [Azure_models_list]) (the_request d m fids) = Inl exc"
  shows "\<exists>s'. create_azure_assistant srv s d = (s', None)
           \<and> calls s' = calls s2 @ [Azure_models_list, Azure_assistants_create (the_request d m fids)]
           \<and> slept s' = slept s2
           \<and> (\<exists>old. log s' = log s2 @ old @ [(ERROR, ''Azure assistant creation failed: '' @ str_exn exc)])"
  using assms by (simp add: create_azure_assistant_def creating_def the_request_def Let_def)

lemma create_azure_assistant_created:
  assumes "upload_files srv (creating d s) [] (get_file_details d) = (s2, fids)"
    and "azure_models_list srv (calls s2) = Inr ids"
    and "resolve_target_model (get_model d) ids = Some m"
    and "azure_assistants_create srv (calls s2 @ [Azure_models_list]) (the_request d m fids) = Inr rid"
  shows "\<exists>s'. create_azure_assistant srv s d = (s', Some rid)
           \<and> calls s' = calls s2 @ [Azure_models_list, Azure_assistants_create (the_request d m fids)]
           \<and> slept s' = slept s2"
  using assms by (simp add: create_azure_assistant_def creating_def the_request_def Let_def)

lemma create_azure_assistant_slept [simp]:
  "slept (fst (create_azure_assistant srv s d)) = slept s"
proof -
  obtain s2 fids where u: "upload_files srv (creating d s) [] (get_file_details d) = (s2, fids)"
    by (cases "upload_files srv (creating d s) [] (get_file_details d)")
  have s2: "slept s2 = slept s"
    using upload_files_slept [of srv "creating d s" "[]" "get_file_details d"] u by simp
  show ?thesis
  proof (cases "azure_models_list srv (calls s2)")
    case (Inl exc)
    show ?thesis using create_azure_assistant_models_error [OF u Inl] s2 by simp
  next
    case (Inr ids)
    show ?thesis
    proof (cases "resolve_target_model (get_model d) ids")
      case None
      show ?thesis using create_azure_assistant_no_model [OF u Inr None] s2 by simp
    next
      case (Some m)
      show ?thesis
      proof (cases "azure_assistants_create srv (calls s2 @ [Azure_models_list]) (the_request d m fids)")
        case (Inl exc)
        show ?thesis using create_azure_assistant_create_error [OF u Inr Some Inl] s2 by auto
      next
        case (Inr rid)
        show ?thesis using create_azure_assistant_created [OF u \<open>azure_models_list srv (calls s2) = Inr ids\<close> Some Inr] s2 by auto
      qed
    qed
  qed
qed

text \<open>What \<open>create_azure_assistant\<close> sends after its uploads.\<close>

lemma create_azure_assistant_calls:
  assumes "upload_files srv (creating d s) [] (get_file_details d) = (s2, fids)"
  shows "calls (fst (create_azure_assistant srv s d)) = calls s2 @ [Azure_models_list]
         \<or> (\<exists>m. calls (fst (create_azure_assistant srv s d))
                  = calls s2 @ [Azure_models_list, Azure_assistants_create (the_request d m fids)])"
proof (cases "azure_models_list srv (calls s2)")
  case (Inl exc)
  show ?thesis using create_azure_assistant_models_error [OF assms Inl] by simp
next
  case (Inr ids)
  note ids = this
  show ?thesis
  proof (cases "resolve_target_model (get_model d) ids")
    case None
    show ?thesis using create_azure_assistant_no_model [OF assms ids None] by simp
  next
    case (Some m)
    show ?thesis
    proof (cases "azure_assistants_create srv (calls s2 @ [Azure_models_list]) (the_request d m fids)")
      case (Inl exc)
      show ?thesis using create_azure_assistant_create_error [OF assms ids Some Inl] by auto
    next
      case (Inr rid)
      show ?thesis using create_azure_assistant_created [OF assms ids Some Inr] by auto
    qed
  qed
qed

lemma create_azure_assistant_creates_at_most_one:
  "length (filter is_create (calls (fst (create_azure_assistant srv s d))))
     \<le> length (filter is_create (calls s)) + 1"
proof -
  obtain s2 fids where u: "upload_files srv (creating d s) [] (get_file_details d) = (s2, fids)"
    by (cases "upload_files srv (creating d s) [] (get_file_details d)")
  have "filter is_create (calls s2) = filter is_create (calls s)"
    using upload_files_filter [of is_create srv "creating d s" "[]" "get_file_details d"] u by simp
  with create_azure_assistant_calls [OF u] show ?thesis by auto
qed

lemma create_azure_assistant_filter:
  assumes "\<And>p b. \<not> P (Azure_files_create p b)" "\<not> P Azure_models_list"
    "\<And>r. \<not> P (Azure_assistants_create r)"
  shows "filter P (calls (fst (create_azure_assistant srv s d))) = filter P (calls s)"
proof -
  obtain s2 fids where u: "upload_files srv (creating d s) [] (get_file_details d) = (s2, fids)"
    by (cases "upload_files srv (creating d s) [] (get_file_details d)")
  have "filter P (calls s2) = filter P (calls s)"
    using upload_files_filter [of P srv "creating d s" "[]" "get_file_details d"] u assms(1) by simp
  with create_azure_assistant_calls [OF u] assms show ?thesis by auto
qed

lemma upload_file_to_azure_calls_grow:
  "\<exists>new. calls (fst (upload_file_to_azure srv s p)) = calls s @ new"
  by (auto simp: upload_file_to_azure_def Let_def split: sum.splits option.splits)

lemma upload_files_calls_grow: "\<exists>new. calls (fst (upload_files srv s acc fds)) = calls s @ new"
proof (induction fds arbitrary: s acc)
  case Nil
  show ?case by simp
next
  case (Cons fd fds)
  obtain s1 r where u: "upload_file_to_azure srv s (fd_path fd) = (s1, r)"
    by (cases "upload_file_to_azure srv s (fd_path fd)")
  obtain n1 where n1: "calls s1 = calls s @ n1"
    using upload_file_to_azure_calls_grow [of srv s "fd_path fd"] u by auto
  obtain n2 where "calls (fst (upload_files srv s1
      (if truthy r then acc @ [the r] else acc) fds)) = calls s1 @ n2"
    using Cons by blast
  with u n1 show ?case by simp
qed

subsection \<open>The log only grows\<close>

lemma upload_file_to_azure_log: "\<exists>new. log (fst (upload_file_to_azure srv s p)) = log s @ new"
  by (auto simp: upload_file_to_azure_def Let_def split: sum.splits option.splits)

lemma upload_files_log: "\<exists>new. log (fst (upload_files srv s acc fds)) = log s @ new"
proof (induction fds arbitrary: s acc)
  case Nil
  show ?case by simp
next
  case (Cons fd fds)
  obtain s1 r where u: "upload_file_to_azure srv s (fd_path fd) = (s1, r)"
    by (cases "upload_file_to_azure srv s (fd_path fd)")
  obtain n1 where n1: "log s1 = log s @ n1"
    using upload_file_to_azure_log [of srv s "fd_path fd"] u by auto
  obtain n2 where "log (fst (upload_files srv s1
      (if truthy r then acc @ [the r] else acc) fds)) = log s1 @ n2"
    using Cons by blast
  with u n1 show ?case by simp
qed

lemma get_assistant_details_log: "\<exists>new. log (fst (get_assistant_details srv s i)) = log s @ new"
proof -
  let ?s1 = "send (OpenAI_assistants_retrieve i) (fetching i s)"
  have dl: "\<exists>new. log (fst (download_files srv ?s1 [] fs)) = log s @ new" for fs
    using download_files_log [of srv ?s1 "[]" fs] by auto
  show ?thesis
    using get_assistant_details_cases [of srv s i]
  proof (elim disjE exE conjE)
    fix e
    assume "get_assistant_details srv s i = (details_failed i e ?s1, [])"
    then show ?thesis by simp
  next
    fix a s2 e
    assume "download_files srv ?s1 [] (a_file_ids a) = (s2, Inl e)"
      and "get_assistant_details srv s i = (details_failed i e s2, [])"
    with dl [of "a_file_ids a"] show ?thesis by auto
  next
    fix a s2 fds
    assume "download_files srv ?s1 [] (a_file_ids a) = (s2, Inr fds)"
      and "get_assistant_details srv s i = (s2, full_details a fds)"
    with dl [of "a_file_ids a"] show ?thesis by auto
  qed
qed

lemma create_azure_assistant_log: "\<exists>new. log (fst (create_azure_assistant srv s d)) = log s @ new"
proof -
  obtain s2 fids where u: "upload_files srv (creating d s) [] (get_file_details d) = (s2, fids)"
    by (cases "upload_files srv (creating d s) [] (get_file_details d)")
  obtain n where n: "log s2 = log s @ n"
    using upload_files_log [of srv "creating d s" "[]" "get_file_details d"] u by auto
  show ?thesis
  proof (cases "azure_models_list srv (calls s2)")
    case (Inl exc)
    show ?thesis using create_azure_assistant_models_error [OF u Inl] n by simp
  next
    case (Inr ids)
    note ids = this
    show ?thesis
    proof (cases "resolve_target_model (get_model d) ids")
      case None
      show ?thesis using create_azure_assistant_no_model [OF u ids None] n by simp
    next
      case (Some m)
      then show ?thesis using u ids n
        by (auto simp: create_azure_assistant_def creating_def Let_def split: sum.splits)
    qed
  qed
qed

subsection \<open>The body of the migration loop\<close>

lemma migrate_one_skip:
  assumes "fetch_details srv s a = (s2, [])"
  shows "migrate_one srv (s, m) a = (s2, m)"
  using assms by (simp add: migrate_one_def fetch_details_def)

lemma migrate_one_failed:
  assumes "fetch_details srv s a = (s2, d)" "d \<noteq> []"
    and "create_azure_assistant srv s2 d = (s3, r)" "\<not> truthy r"
  shows "migrate_one srv (s, m) a =
           (time_sleep 1 (logger_error (''Failed to migrate assistant '' @ a_id a) s3), m)"
  using assms by (simp add: migrate_one_def fetch_details_def)

lemma migrate_one_migrated:
  assumes "fetch_details srv s a = (s2, d)" "d \<noteq> []"
    and "create_azure_assistant srv s2 d = (s3, r)" "truthy r"
  shows "migrate_one srv (s, m) a =
           (time_sleep 1 (logger_info (''Successfully migrated '' @ a_id a @ '' '' @ rightarrow
                                         @ '' '' @ the r) s3),
            dict_set m (a_id a) (the r))"
  using assms by (simp add: migrate_one_def fetch_details_def)

lemma fetch_details_empty_iff:
  "snd (fetch_details srv s a) = [] \<longleftrightarrow> retrieval_fails srv (calls s) (a_id a)"
  by (simp add: fetch_details_def get_assistant_details_empty_iff_fails)

lemma create_azure_assistant_result:
  assumes "upload_files srv (creating d s) [] (get_file_details d) = (s2, fids)"
  shows "(\<not> truthy (snd (create_azure_assistant srv s d))) =
           (case azure_models_list srv (calls s2) of
              Inl e \<Rightarrow> True
            | Inr ids \<Rightarrow>
                (case resolve_target_model (get_model d) ids of
                   None \<Rightarrow> True
                 | Some m \<Rightarrow>
                     (case azure_assistants_create srv (calls s2 @ [Azure_models_list])
                             (the_request d m fids) of
                        Inl e \<Rightarrow> True
                      | Inr rid \<Rightarrow> rid = [])))"
proof (cases "azure_models_list srv (calls s2)")
  case (Inl exc)
  show ?thesis using create_azure_assistant_models_error [OF assms Inl] Inl by simp
next
  case (Inr ids)
  note ids = this
  show ?thesis
  proof (cases "resolve_target_model (get_model d) ids")
    case None
    show ?thesis using create_azure_assistant_no_model [OF assms ids None] ids None by simp
  next
    case (Some m)
    show ?thesis
    proof (cases "azure_assistants_create srv (calls s2 @ [Azure_models_list]) (the_request d m fids)")
      case (Inl exc)
      show ?thesis using create_azure_assistant_create_error [OF assms ids Some Inl] ids Some Inl
        by auto
    next
      case (Inr rid)
      show ?thesis using create_azure_assistant_created [OF assms ids Some Inr] ids Some Inr
        by auto
    qed
  qed
qed

lemma creation_fails_iff:
  assumes "fetch_details srv s a = (s2, d)"
  shows "creation_fails srv s a \<longleftrightarrow> \<not> truthy (snd (create_azure_assistant srv s2 d))"
proof -
  obtain s3 fids where u: "upload_files srv (creating d s2) [] (get_file_details d) = (s3, fids)"
    by (cases "upload_files srv (creating d s2) [] (get_file_details d)")
  show ?thesis
    by (simp add: creation_fails_def assms u create_azure_assistant_result [OF u])
qed

lemma item_fails_iff:
  "item_fails srv s a \<longleftrightarrow>
     (case fetch_details srv s a of
        (s2, d) \<Rightarrow> d = [] \<or> \<not> truthy (snd (create_azure_assistant srv s2 d)))"
proof -
  obtain s2 d where f: "fetch_details srv s a = (s2, d)" by (cases "fetch_details srv s a")
  from f fetch_details_empty_iff [of srv s a]
  have "retrieval_fails srv (calls s) (a_id a) \<longleftrightarrow> d = []" by simp
  with creation_fails_iff [OF f] f show ?thesis by (simp add: item_fails_def)
qed

lemma migrate_one_item_fails:
  assumes "item_fails srv s a"
  shows "\<exists>s' old msg. migrate_one srv (s, m) a = (s', m) \<and> log s' = log s @ old @ [(ERROR, msg)]"
proof -
  obtain s2 d where f: "fetch_details srv s a = (s2, d)" by (cases "fetch_details srv s a")
  show ?thesis
  proof (cases "d = []")
    case True
    from f True obtain old e where
      "log s2 = log (logger_info (''Migrating assistant: '' @ str_opt (a_name a)) s) @ old
         @ [(ERROR, ''Failed to fetch details for assistant '' @ a_id a @ '': '' @ str_exn e)]"
      using get_assistant_details_empty_logs_error [of srv _ "a_id a" s2]
      unfolding fetch_details_def by blast
    then have "log s2 = log s @ ((INFO, ''Migrating assistant: '' @ str_opt (a_name a)) # old)
         @ [(ERROR, ''Failed to fetch details for assistant '' @ a_id a @ '': '' @ str_exn e)]"
      by simp
    moreover have "migrate_one srv (s, m) a = (s2, m)"
      using migrate_one_skip f True by simp
    ultimately show ?thesis by blast
  next
    case False
    obtain s3 r where c: "create_azure_assistant srv s2 d = (s3, r)"
      by (cases "create_azure_assistant srv s2 d")
    from assms f False c have r: "\<not> truthy r" by (simp add: item_fails_iff)
    obtain n1 where "log s2 = log (logger_info (''Migrating assistant: '' @ str_opt (a_name a)) s) @ n1"
      using get_assistant_details_log [of srv _ "a_id a"] f unfolding fetch_details_def
      by (metis fst_conv)
    moreover obtain n2 where "log s3 = log s2 @ n2"
      using create_azure_assistant_log [of srv s2 d] c by auto
    ultimately have "log (time_sleep 1 (logger_error (''Failed to migrate assistant '' @ a_id a) s3))
        = log s @ ((INFO, ''Migrating assistant: '' @ str_opt (a_name a)) # n1 @ n2)
          @ [(ERROR, ''Failed to migrate assistant '' @ a_id a)]"
      by simp
    with migrate_one_failed [OF f False c r, of m] show ?thesis by blast
  qed
qed

lemma migrate_one_item_ok:
  assumes "\<not> item_fails srv s a"
  shows "\<exists>s' rid. migrate_one srv (s, m) a = (s', dict_set m (a_id a) rid) \<and> rid \<noteq> []"
proof -
  obtain s2 d where f: "fetch_details srv s a = (s2, d)" by (cases "fetch_details srv s a")
  obtain s3 r where c: "create_azure_assistant srv s2 d = (s3, r)"
    by (cases "create_azure_assistant srv s2 d")
  from assms f c have d: "d \<noteq> []" and r: "truthy r" by (simp_all add: item_fails_iff)
  from r obtain rid where "r = Some rid" "rid \<noteq> []" by (cases r) simp_all
  with migrate_one_migrated [OF f d c r, of m] show ?thesis by auto
qed

lemma migrate_one_mapping:
  "snd (migrate_one srv (s, m) a) = m \<or> (\<exists>rid. snd (migrate_one srv (s, m) a) = dict_set m (a_id a) rid)"
proof (cases "item_fails srv s a")
  case True
  then show ?thesis using migrate_one_item_fails [of srv s a m] by auto
next
  case False
  then show ?thesis using migrate_one_item_ok [of srv s a m] by auto
qed

subsection \<open>Model resolution\<close>

lemma str_contains_eq_sublist: "(\<lambda>d. str_contains needle d) = sublist needle"
  by (rule ext) (rule str_contains_sublist)

lemma resolve_target_model_spec:
  "resolve_target_model (Some requested) ids =
     (case resolveDestinationModel requested ids of
        None \<Rightarrow> None
      | Some d \<Rightarrow> if d = [] then None else Some d)"
proof (cases "requested \<in> set ids")
  case True
  then show ?thesis
    by (simp add: resolve_target_model_def resolveDestinationModel_def)
next
  case False
  show ?thesis
  proof (cases "find (sublist ''gpt-4'') ids")
    case None
    with False show ?thesis
      by (cases ids)
        (simp_all add: resolve_target_model_def resolveDestinationModel_def py_or_def
           str_contains_eq_sublist)
  next
    case (Some g)
    then have "sublist ''gpt-4'' g" by (auto simp: find_Some_iff)
    then have "g \<noteq> []" by auto
    with False Some show ?thesis
      by (simp add: resolve_target_model_def resolveDestinationModel_def py_or_def
           str_contains_eq_sublist)
  qed
qed

text \<open>
  Claim C1, as the code has it. The deployment that \<open>create_azure_assistant\<close> resolves is
  the one the specification describes (the requested model if it is in the list, else the
  first identifier in list order that contains \<open>gpt-4\<close>, else the first identifier, else
  none), except that an empty identifier chosen this way counts as none. When the
  deployments were listed and none is resolved, the function returns \<open>None\<close> and its
  last request is the listing: no creation request is sent. When one is resolved, the
  creation request is sent with it as the model.
\<close>

theorem model_resolution_algorithm:
  "resolve_target_model (Some requested) ids =
     (case resolveDestinationModel requested ids of
        None \<Rightarrow> None
      | Some d \<Rightarrow> if d = [] then None else Some d)
   \<and> (upload_files srv (creating d s) [] (get_file_details d) = (s2, fids) \<longrightarrow>
      azure_models_list srv (calls s2) = Inr available \<longrightarrow>
        (case resolve_target_model (get_model d) available of
           None \<Rightarrow>
             snd (create_azure_assistant srv s d) = None
             \<and> calls (fst (create_azure_assistant srv s d)) = calls s2 @ [Azure_models_list]
         | Some m \<Rightarrow>
             calls (fst (create_azure_assistant srv s d))
               = calls s2 @ [Azure_models_list, Azure_assistants_create (the_request d m fids)]))"
proof (intro conjI impI)
  show "resolve_target_model (Some requested) ids =
     (case resolveDestinationModel requested ids of
        None \<Rightarrow> None
      | Some d \<Rightarrow> if d = [] then None else Some d)"
    by (rule resolve_target_model_spec)
next
  assume u: "upload_files srv (creating d s) [] (get_file_details d) = (s2, fids)"
    and l: "azure_models_list srv (calls s2) = Inr available"
  show "case resolve_target_model (get_model d) available of
           None \<Rightarrow>
             snd (create_azure_assistant srv s d) = None
             \<and> calls (fst (create_azure_assistant srv s d)) = calls s2 @ [Azure_models_list]
         | Some m \<Rightarrow>
             calls (fst (create_azure_assistant srv s d))
               = calls s2 @ [Azure_models_list, Azure_assistants_create (the_request d m fids)]"
  proof (cases "resolve_target_model (get_model d) available")
    case None
    then show ?thesis using create_azure_assistant_no_model [OF u l None] by simp
  next
    case (Some m)
    show ?thesis
    proof (cases "azure_assistants_create srv (calls s2 @ [Azure_models_list]) (the_request d m fids)")
      case (Inl exc)
      show ?thesis using create_azure_assistant_create_error [OF u l Some Inl] Some by auto
    next
      case (Inr rid)
      show ?thesis using create_azure_assistant_created [OF u l Some Inr] Some by auto
    qed
  qed
qed

text \<open>
  The theorem at the second example of the specification: \<open>gpt-5-preview\<close> is not deployed,
  \<open>gpt-4-turbo\<close> is the first deployment containing \<open>gpt-4\<close>.
\<close>

theorem model_resolution_algorithm_witness:
  "resolve_target_model (Some ''gpt-5-preview'') [''gpt-3.5'', ''gpt-4-turbo''] = Some ''gpt-4-turbo''
   \<and> calls (fst (create_azure_assistant example_services initial_state (full_details asst_plain [])))
       = [Azure_models_list,
          Azure_assistants_create
            \<lparr>cr_name = None, cr_instructions = Some ''Be brief'', cr_model = ''gpt-4-turbo'',
             cr_tools = [], cr_file_ids = []\<rparr>]"
proof -
  let ?d = "full_details asst_plain []"
  let ?ids = "[''gpt-3.5'', ''gpt-4-turbo'']"
  have u: "upload_files example_services (creating ?d initial_state) [] (get_file_details ?d)
             = (creating ?d initial_state, [])"
    by (simp add: full_details_def)
  have l: "azure_models_list example_services (calls (creating ?d initial_state)) = Inr ?ids"
    by (simp add: example_services_def)
  have m: "get_model ?d = Some ''gpt-5-preview''"
    by (simp add: full_details_def asst_plain_def)
  have r: "resolveDestinationModel ''gpt-5-preview'' ?ids = Some ''gpt-4-turbo''"
    by (simp add: resolveDestinationModel_def str_contains_sublist [symmetric])
  note T = model_resolution_algorithm [of "''gpt-5-preview''" ?ids
      example_services ?d initial_state "creating ?d initial_state" "[]" ?ids]
  from T r have A: "resolve_target_model (Some ''gpt-5-preview'') ?ids = Some ''gpt-4-turbo''"
    by simp
  from T u l have "case resolve_target_model (get_model ?d) ?ids of
           None \<Rightarrow>
             snd (create_azure_assistant example_services initial_state ?d) = None
             \<and> calls (fst (create_azure_assistant example_services initial_state ?d))
                 = calls (creating ?d initial_state) @ [Azure_models_list]
         | Some m \<Rightarrow>
             calls (fst (create_azure_assistant example_services initial_state ?d))
               = calls (creating ?d initial_state)
                   @ [Azure_models_list, Azure_assistants_create (the_request ?d m [])]"
    by blast
  with m A have "calls (fst (create_azure_assistant example_services initial_state ?d))
      = calls (creating ?d initial_state)
          @ [Azure_models_list, Azure_assistants_create (the_request ?d ''gpt-4-turbo'' [])]"
    by simp
  then have "calls (fst (create_azure_assistant example_services initial_state ?d))
      = [Azure_models_list,
          Azure_assistants_create
            \<lparr>cr_name = None, cr_instructions = Some ''Be brief'', cr_model = ''gpt-4-turbo'',
             cr_tools = [], cr_file_ids = []\<rparr>]"
    by (simp add: the_request_def full_details_def asst_plain_def initial_state_def)
  with A show ?thesis by simp
qed

text \<open>
  Claim C1 as stated fails where the only deployment has the empty identifier: the
  specification's resolution takes it as the first deployment, the code resolves nothing
  and sends no creation request.
\<close>

theorem first_deployment_not_used_counterexample:
  "resolveDestinationModel ''gpt-5-preview'' [[]] = Some []
   \<and> resolve_target_model (Some ''gpt-5-preview'') [[]] = None
   \<and> filter is_create (calls (fst (create_azure_assistant unnamed_deployment_services
         initial_state (full_details asst_plain [])))) = []"
  by (simp add: resolveDestinationModel_def resolve_target_model_def py_or_def
        create_azure_assistant_def unnamed_deployment_services_def example_services_def
        full_details_def asst_plain_def initial_state_def)

subsection \<open>The local path of a downloaded file\<close>

text \<open>
  Claim C9, as the code has it. When \<open>_download_file\<close> returns a path for file \<open>f\<close>, the
  path is \<open>os.path.join\<close> of the temporary directory and the file name of the metadata,
  or \<open>f.bin\<close> when the metadata has no name or an empty one, and the payload is what the
  local file at that path holds afterwards. So when a second file \<open>g\<close> whose metadata
  carries the same name, a name that is not empty, is downloaded, in whatever state \<open>t\<close>,
  it goes to the same path, and that path then holds the payload of \<open>g\<close>: what the first
  download wrote there is replaced.
\<close>

theorem download_file_local_path:
  assumes "snd (download_file srv s f) = Inr p"
  shows "\<exists>b mf.
           openai_files_content srv (calls s) f = Inr b
           \<and> openai_files_retrieve srv (calls s @ [OpenAI_files_content f]) f = Inr mf
           \<and> p = os_path_join (gettempdir srv) (if truthy mf then the mf else f @ ''.bin'')
           \<and> files (fst (download_file srv s f)) = (files s)(p \<mapsto> b)
           \<and> (\<forall>g t q n.
                 g \<noteq> f \<and> mf = Some n \<and> n \<noteq> []
                 \<and> openai_files_retrieve srv (calls t @ [OpenAI_files_content g]) g = Inr (Some n)
                 \<and> snd (download_file srv t g) = Inr q
                 \<longrightarrow> q = p
                     \<and> (\<exists>c. openai_files_content srv (calls t) g = Inr c
                            \<and> files (fst (download_file srv t g)) p = Some c))"
proof -
  from assms have "download_file srv s f = (fst (download_file srv s f), Inr p)"
    by (metis prod.collapse)
  from download_file_Inr [OF this] obtain b mf where
    b: "openai_files_content srv (calls s) f = Inr b"
    and mf: "openai_files_retrieve srv (calls s @ [OpenAI_files_content f]) f = Inr mf"
    and p: "p = os_path_join (gettempdir srv) (if truthy mf then the mf else f @ ''.bin'')"
    and fs: "files (fst (download_file srv s f)) = (files s)(p \<mapsto> b)"
    by auto
  have "q = p \<and> (\<exists>c. openai_files_content srv (calls t) g = Inr c
                     \<and> files (fst (download_file srv t g)) p = Some c)"
    if n: "mf = Some n" "n \<noteq> []"
      and gn: "openai_files_retrieve srv (calls t @ [OpenAI_files_content g]) g = Inr (Some n)"
      and q: "snd (download_file srv t g) = Inr q"
    for g t q n
  proof -
    from q have "download_file srv t g = (fst (download_file srv t g), Inr q)"
      by (metis prod.collapse)
    from download_file_Inr [OF this] gn n obtain c where
      "openai_files_content srv (calls t) g = Inr c"
      "q = os_path_join (gettempdir srv) n"
      "files (fst (download_file srv t g)) = (files t)(q \<mapsto> c)"
      by auto
    with p n show ?thesis by simp
  qed
  with b mf p fs show ?thesis by blast
qed

lemma os_path_join_example: "os_path_join ''/tmp'' ''notes.txt'' = ''/tmp/notes.txt''"
  by (simp add: os_path_join_def suffix_to_prefix)

lemma os_path_join_fallback_example:
  "os_path_join ''/tmp'' ''file_1.bin'' = ''/tmp/file_1.bin''"
  by (simp add: os_path_join_def suffix_to_prefix)

text \<open>
  The theorem in the example world, where both files of the first assistant are named
  \<open>notes.txt\<close>: after the two downloads the one local file holds the second payload. And
  where the files have no name: the first file goes to \<open>file_1.bin\<close>.
\<close>

theorem download_file_local_path_witness:
  "snd (download_file example_services initial_state ''file_1'') = Inr ''/tmp/notes.txt''
   \<and> files (fst (download_file example_services initial_state ''file_1'')) ''/tmp/notes.txt''
       = Some ''content of file_1''
   \<and> files (fst (download_file example_services
                   (fst (download_file example_services initial_state ''file_1'')) ''file_2''))
         ''/tmp/notes.txt''
       = Some ''content of file_2''
   \<and> snd (download_file unnamed_files_services initial_state ''file_1'') = Inr ''/tmp/file_1.bin''
   \<and> files (fst (download_file unnamed_files_services initial_state ''file_1''))
         ''/tmp/file_1.bin''
       = Some ''content of file_1''"
proof -
  let ?t = "fst (download_file example_services initial_state ''file_1'')"
  have h: "snd (download_file example_services initial_state ''file_1'') = Inr ''/tmp/notes.txt''"
    by (simp add: download_file_def example_services_def os_path_join_example Let_def)
  have q: "snd (download_file example_services ?t ''file_2'') = Inr ''/tmp/notes.txt''"
    by (simp add: download_file_def example_services_def os_path_join_example Let_def)
  have c1: "openai_files_content example_services h ''file_1'' = Inr ''content of file_1''" for h
    by (simp add: example_services_def)
  have c2: "openai_files_content example_services h ''file_2'' = Inr ''content of file_2''" for h
    by (simp add: example_services_def)
  have n: "openai_files_retrieve example_services h g = Inr (Some ''notes.txt'')" for h g
    by (simp add: example_services_def)
  from download_file_local_path [OF h] obtain b mf where
    b: "openai_files_content example_services (calls initial_state) ''file_1'' = Inr b"
    and mf: "openai_files_retrieve example_services
               (calls initial_state @ [OpenAI_files_content ''file_1'']) ''file_1'' = Inr mf"
    and fs: "files ?t = (files initial_state)(''/tmp/notes.txt'' \<mapsto> b)"
    and later: "\<forall>g t q n.
                 g \<noteq> ''file_1'' \<and> mf = Some n \<and> n \<noteq> []
                 \<and> openai_files_retrieve example_services (calls t @ [OpenAI_files_content g]) g
                     = Inr (Some n)
                 \<and> snd (download_file example_services t g) = Inr q
                 \<longrightarrow> q = ''/tmp/notes.txt''
                     \<and> (\<exists>c. openai_files_content example_services (calls t) g = Inr c
                            \<and> files (fst (download_file example_services t g)) ''/tmp/notes.txt''
                                = Some c)"
    by blast
  from b c1 have "b = ''content of file_1''" by simp
  with fs have first: "files ?t ''/tmp/notes.txt'' = Some ''content of file_1''" by simp
  from mf n have "mf = Some ''notes.txt''" by simp
  with later n q have "\<exists>c. openai_files_content example_services (calls ?t) ''file_2'' = Inr c
      \<and> files (fst (download_file example_services ?t ''file_2'')) ''/tmp/notes.txt'' = Some c"
    by (auto dest!: spec [of _ "''file_2''"] spec [of _ ?t])
  with c2 have second: "files (fst (download_file example_services ?t ''file_2'')) ''/tmp/notes.txt''
      = Some ''content of file_2''"
    by auto
  let ?u = unnamed_files_services
  have h': "snd (download_file ?u initial_state ''file_1'') = Inr ''/tmp/file_1.bin''"
    by (simp add: download_file_def unnamed_files_services_def example_services_def
          os_path_join_fallback_example Let_def)
  have c1': "openai_files_content ?u h ''file_1'' = Inr ''content of file_1''" for h
    by (simp add: unnamed_files_services_def example_services_def)
  from download_file_local_path [OF h'] obtain b' where
    "openai_files_content ?u (calls initial_state) ''file_1'' = Inr b'"
    "files (fst (download_file ?u initial_state ''file_1''))
       = (files initial_state)(''/tmp/file_1.bin'' \<mapsto> b')"
    by blast
  with c1' have fallback: "files (fst (download_file ?u initial_state ''file_1''))
      ''/tmp/file_1.bin'' = Some ''content of file_1''"
    by simp
  from h first second h' fallback show ?thesis by simp
qed

text \<open>
  Claim C9 as stated fails where the two files have no file name: their metadata
  file names are equal, the two downloads go to different paths, and after the second
  download the first local file still holds the first payload.
\<close>

theorem absent_filenames_do_not_collide_counterexample:
  "openai_files_retrieve unnamed_files_services [OpenAI_files_content ''file_1''] ''file_1''
     = openai_files_retrieve unnamed_files_services
         [OpenAI_files_content ''file_1'', OpenAI_files_retrieve ''file_1'',
          OpenAI_files_content ''file_2''] ''file_2''
   \<and> snd (download_file unnamed_files_services initial_state ''file_1'') = Inr ''/tmp/file_1.bin''
   \<and> snd (download_file unnamed_files_services
            (fst (download_file unnamed_files_services initial_state ''file_1'')) ''file_2'')
       = Inr ''/tmp/file_2.bin''
   \<and> files (fst (download_file unnamed_files_services
                   (fst (download_file unnamed_files_services initial_state ''file_1''))
                   ''file_2'')) ''/tmp/file_1.bin''
       = Some ''content of file_1''"
  by code_simp

subsection \<open>The dictionary of details is empty or complete\<close>

lemma migrate_one_slept:
  assumes "snd (fetch_details srv s a) \<noteq> []"
  shows "slept (fst (migrate_one srv (s, m) a)) = slept (fst (fetch_details srv s a)) + 1"
proof -
  obtain s2 d where f: "fetch_details srv s a = (s2, d)" by (cases "fetch_details srv s a")
  obtain s3 r where c: "create_azure_assistant srv s2 d = (s3, r)"
    by (cases "create_azure_assistant srv s2 d")
  from f assms have d: "d \<noteq> []" by simp
  have "slept s3 = slept s2" using create_azure_assistant_slept [of srv s2 d] c by simp
  then show ?thesis
    using migrate_one_failed [OF f d c, of m] migrate_one_migrated [OF f d c, of m] f
    by (cases "truthy r") simp_all
qed

text \<open>
  Claim C10. The dictionary that \<open>get_assistant_details\<close> returns is empty, or it has
  exactly the keys \<open>id\<close>, \<open>name\<close>, \<open>instructions\<close>, \<open>model\<close>, \<open>tools\<close> and
  \<open>file_details\<close>, with the fields of the assistant that was retrieved, its \<open>id\<close> among
  them. It is empty exactly when the retrieval failed. So the loop of
  \<open>migrate_all_assistants\<close>, reaching assistant \<open>x\<close> in state \<open>t\<close>, ends its body right
  after the retrieval, with the mapping unchanged, exactly when the retrieval failed.
\<close>

theorem get_assistant_details_empty_or_complete:
  "(snd (get_assistant_details srv s i) = []
    \<or> map key (snd (get_assistant_details srv s i))
        = [''id'', ''name'', ''instructions'', ''model'', ''tools'', ''file_details'']
      \<and> (\<exists>a fds. openai_assistants_retrieve srv (calls s) i = Inr a
            \<and> snd (get_assistant_details srv s i)
                = [Id (a_id a), Name (a_name a), Instructions (a_instructions a),
                   Model (a_model a), Tools (a_tools a), File_details fds]))
   \<and> (snd (get_assistant_details srv s i) = [] \<longleftrightarrow> details_retrieval_failed srv s i)
   \<and> (migrate_one srv (t, m) x = (fst (fetch_details srv t x), m)
        \<longleftrightarrow> details_retrieval_failed srv
              (logger_info (''Migrating assistant: '' @ str_opt (a_name x)) t) (a_id x))"
proof (intro conjI)
  show "snd (get_assistant_details srv s i) = []
    \<or> map key (snd (get_assistant_details srv s i))
        = [''id'', ''name'', ''instructions'', ''model'', ''tools'', ''file_details'']
      \<and> (\<exists>a fds. openai_assistants_retrieve srv (calls s) i = Inr a
            \<and> snd (get_assistant_details srv s i)
                = [Id (a_id a), Name (a_name a), Instructions (a_instructions a),
                   Model (a_model a), Tools (a_tools a), File_details fds])"
  proof (cases "snd (get_assistant_details srv s i) = []")
    case True
    then show ?thesis by simp
  next
    case False
    from get_assistant_details_full [OF False] obtain a fds where
      "openai_assistants_retrieve srv (calls s) i = Inr a"
      "snd (get_assistant_details srv s i) = full_details a fds"
      by blast
    then show ?thesis by (auto simp: full_details_def)
  qed
next
  show "snd (get_assistant_details srv s i) = [] \<longleftrightarrow> details_retrieval_failed srv s i"
    by (rule get_assistant_details_empty_iff)
next
  let ?t1 = "logger_info (''Migrating assistant: '' @ str_opt (a_name x)) t"
  have failed: "details_retrieval_failed srv ?t1 (a_id x) \<longleftrightarrow> snd (fetch_details srv t x) = []"
    by (simp add: fetch_details_def get_assistant_details_empty_iff)
  show "migrate_one srv (t, m) x = (fst (fetch_details srv t x), m)
        \<longleftrightarrow> details_retrieval_failed srv ?t1 (a_id x)"
  proof (cases "snd (fetch_details srv t x) = []")
    case True
    then have "fetch_details srv t x = (fst (fetch_details srv t x), [])"
      by (metis prod.collapse)
    from migrate_one_skip [OF this] True failed show ?thesis by simp
  next
    case False
    from migrate_one_slept [OF False, of m]
    have "fst (migrate_one srv (t, m) x) \<noteq> fst (fetch_details srv t x)" by auto
    with False failed show ?thesis by auto
  qed
qed

text \<open>
  The theorem where the source cannot retrieve the first assistant and can retrieve the
  second: the first dictionary is empty and the loop skips it, the second is complete.
\<close>

theorem get_assistant_details_empty_or_complete_witness:
  "details_retrieval_failed retrieve_fails_services initial_state ''asst_1''
   \<and> snd (get_assistant_details retrieve_fails_services initial_state ''asst_1'') = []
   \<and> migrate_one retrieve_fails_services (initial_state, []) asst_helper
       = (fst (fetch_details retrieve_fails_services initial_state asst_helper), [])
   \<and> \<not> details_retrieval_failed retrieve_fails_services initial_state ''asst_2''
   \<and> map key (snd (get_assistant_details retrieve_fails_services initial_state ''asst_2''))
       = [''id'', ''name'', ''instructions'', ''model'', ''tools'', ''file_details'']"
proof -
  have f1: "details_retrieval_failed retrieve_fails_services s ''asst_1''" for s
    by (simp add: details_retrieval_failed_def retrieve_fails_services_def example_services_def)
  have f2: "\<not> details_retrieval_failed retrieve_fails_services s ''asst_2''" for s
    by (simp add: details_retrieval_failed_def retrieve_fails_services_def example_services_def
          asst_plain_def)
  have x: "a_id asst_helper = ''asst_1''" by (simp add: asst_helper_def)
  note T1 = get_assistant_details_empty_or_complete
    [of retrieve_fails_services initial_state "''asst_1''" initial_state "[]" asst_helper]
  note T2 = get_assistant_details_empty_or_complete
    [of retrieve_fails_services initial_state "''asst_2''" initial_state "[]" asst_helper]
  from T1 f1 have a: "snd (get_assistant_details retrieve_fails_services initial_state ''asst_1'') = []"
    by blast
  from T1 f1 [of "logger_info (''Migrating assistant: '' @ str_opt (a_name asst_helper)) initial_state"] x
  have b: "migrate_one retrieve_fails_services (initial_state, []) asst_helper
       = (fst (fetch_details retrieve_fails_services initial_state asst_helper), [])"
    by simp
  from T2 f2 have "map key (snd (get_assistant_details retrieve_fails_services initial_state ''asst_2''))
       = [''id'', ''name'', ''instructions'', ''model'', ''tools'', ''file_details'']"
    by blast
  with a b f1 f2 show ?thesis by blast
qed

subsection \<open>An assistant without attached files\<close>

lemma get_assistant_details_no_files:
  assumes "openai_assistants_retrieve srv (calls s) i = Inr a" and "a_file_ids a = []"
  shows "get_assistant_details srv s i
           = (send (OpenAI_assistants_retrieve i) (fetching i s), full_details a [])"
  using assms by (simp add: get_assistant_details_def full_details_def fetching_def)

lemma full_details_readers [simp]:
  "get_name (full_details a fds) = a_name a"
  "get_instructions (full_details a fds) = a_instructions a"
  "get_model (full_details a fds) = Some (a_model a)"
  "get_tools (full_details a fds) = a_tools a"
  "get_file_details (full_details a fds) = fds"
  by (simp_all add: full_details_def)

text \<open>
  Claim C8. Let the source return an assistant without attached files. Its details carry
  an empty \<open>file_details\<close> and retrieving them sends the retrieval request only. Creating
  the destination assistant from these details, in whatever state \<open>t\<close>, sends the listing
  of deployments and at most one creation request, whose \<open>file_ids\<close> is empty: no upload
  request is sent. When the deployments are listed, a model is resolved and the creation
  request succeeds, that request, with the empty \<open>file_ids\<close>, is sent and its identifier
  is returned.
\<close>

theorem no_files_no_uploads:
  assumes "openai_assistants_retrieve srv (calls s) i = Inr a" and "a_file_ids a = []"
  shows "get_file_details (snd (get_assistant_details srv s i)) = []
         \<and> snd (get_assistant_details srv s i) \<noteq> []
         \<and> calls (fst (get_assistant_details srv s i)) = calls s @ [OpenAI_assistants_retrieve i]
         \<and> (\<forall>t. filter is_upload (calls (fst (create_azure_assistant srv t
                     (snd (get_assistant_details srv s i))))) = filter is_upload (calls t)
                \<and> (\<forall>r. Azure_assistants_create r
                          \<in> set (drop (length (calls t)) (calls (fst (create_azure_assistant srv t
                                (snd (get_assistant_details srv s i))))))
                        \<longrightarrow> cr_file_ids r = []))
         \<and> (\<forall>t ids m rid.
               azure_models_list srv (calls t) = Inr ids
               \<and> resolve_target_model (Some (a_model a)) ids = Some m
               \<and> azure_assistants_create srv (calls t @ [Azure_models_list])
                    \<lparr>cr_name = a_name a, cr_instructions = a_instructions a, cr_model = m,
                     cr_tools = a_tools a, cr_file_ids = []\<rparr> = Inr rid
               \<longrightarrow> snd (create_azure_assistant srv t (snd (get_assistant_details srv s i)))
                     = Some rid
                   \<and> calls (fst (create_azure_assistant srv t (snd (get_assistant_details srv s i))))
                       = calls t @ [Azure_models_list,
                            Azure_assistants_create
                              \<lparr>cr_name = a_name a, cr_instructions = a_instructions a,
                               cr_model = m, cr_tools = a_tools a, cr_file_ids = []\<rparr>])"
proof -
  let ?d = "full_details a []"
  have g: "get_assistant_details srv s i
             = (send (OpenAI_assistants_retrieve i) (fetching i s), ?d)"
    by (rule get_assistant_details_no_files [OF assms])
  have u: "upload_files srv (creating ?d t) [] (get_file_details ?d) = (creating ?d t, [])" for t
    by simp
  have req: "the_request ?d m [] =
      \<lparr>cr_name = a_name a, cr_instructions = a_instructions a, cr_model = m,
       cr_tools = a_tools a, cr_file_ids = []\<rparr>" for m
    by (simp add: the_request_def)
  have no_upload: "filter is_upload (calls (fst (create_azure_assistant srv t ?d)))
      = filter is_upload (calls t)" for t
    using create_azure_assistant_calls [OF u [of t]] by auto
  have empty_ids: "cr_file_ids r = []"
    if "Azure_assistants_create r
          \<in> set (drop (length (calls t)) (calls (fst (create_azure_assistant srv t ?d))))"
    for t r
    using create_azure_assistant_calls [OF u [of t]] that by (auto simp: req)
  have created: "snd (create_azure_assistant srv t ?d) = Some rid
      \<and> calls (fst (create_azure_assistant srv t ?d))
          = calls t @ [Azure_models_list,
               Azure_assistants_create
                 \<lparr>cr_name = a_name a, cr_instructions = a_instructions a,
                  cr_model = m, cr_tools = a_tools a, cr_file_ids = []\<rparr>]"
    if l: "azure_models_list srv (calls t) = Inr ids"
      and r: "resolve_target_model (Some (a_model a)) ids = Some m"
      and c: "azure_assistants_create srv (calls t @ [Azure_models_list])
                \<lparr>cr_name = a_name a, cr_instructions = a_instructions a, cr_model = m,
                 cr_tools = a_tools a, cr_file_ids = []\<rparr> = Inr rid"
    for t ids m rid
  proof -
    have l': "azure_models_list srv (calls (creating ?d t)) = Inr ids" using l by simp
    have r': "resolve_target_model (get_model ?d) ids = Some m" using r by simp
    have c': "azure_assistants_create srv (calls (creating ?d t) @ [Azure_models_list])
                (the_request ?d m []) = Inr rid"
      using c by (simp add: req)
    from create_azure_assistant_created [OF u l' r' c'] show ?thesis by (auto simp: req)
  qed
  from g no_upload empty_ids created show ?thesis
    by (simp add: full_details_def [of a "[]", symmetric]) (simp add: full_details_def)
qed

text \<open>
  The theorem at the second assistant of the example world, which has no files: the run
  of the two functions sends one retrieval, one listing and one creation with no file.
\<close>

theorem no_files_no_uploads_witness:
  "a_file_ids asst_plain = []
   \<and> snd (create_azure_assistant example_services initial_state
            (snd (get_assistant_details example_services initial_state ''asst_2'')))
       = Some ''asst_az_1''
   \<and> calls (fst (create_azure_assistant example_services initial_state
            (snd (get_assistant_details example_services initial_state ''asst_2''))))
       = [Azure_models_list,
          Azure_assistants_create
            \<lparr>cr_name = None, cr_instructions = Some ''Be brief'', cr_model = ''gpt-4-turbo'',
             cr_tools = [], cr_file_ids = []\<rparr>]"
proof -
  have r: "openai_assistants_retrieve example_services (calls initial_state) ''asst_2''
             = Inr asst_plain"
    by (simp add: example_services_def)
  have e: "a_file_ids asst_plain = []" by (simp add: asst_plain_def)
  have l: "azure_models_list example_services (calls initial_state)
             = Inr [''gpt-3.5'', ''gpt-4-turbo'']"
    by (simp add: example_services_def)
  have m: "resolve_target_model (Some (a_model asst_plain)) [''gpt-3.5'', ''gpt-4-turbo'']
             = Some ''gpt-4-turbo''"
    by (simp add: resolve_target_model_def py_or_def asst_plain_def)
  have c: "azure_assistants_create example_services (calls initial_state @ [Azure_models_list])
             \<lparr>cr_name = a_name asst_plain, cr_instructions = a_instructions asst_plain,
              cr_model = ''gpt-4-turbo'', cr_tools = a_tools asst_plain, cr_file_ids = []\<rparr>
             = Inr ''asst_az_1''"
    by code_simp
  from no_files_no_uploads [OF r e] l m c
  have "snd (create_azure_assistant example_services initial_state
            (snd (get_assistant_details example_services initial_state ''asst_2'')))
          = Some ''asst_az_1''
        \<and> calls (fst (create_azure_assistant example_services initial_state
            (snd (get_assistant_details example_services initial_state ''asst_2''))))
          = calls initial_state @ [Azure_models_list,
              Azure_assistants_create
                \<lparr>cr_name = a_name asst_plain, cr_instructions = a_instructions asst_plain,
                 cr_model = ''gpt-4-turbo'', cr_tools = a_tools asst_plain, cr_file_ids = []\<rparr>]"
    by blast
  with e show ?thesis by (simp add: asst_plain_def initial_state_def)
qed

subsection \<open>The mapping that a run builds\<close>

lemma dict_set_key_set: "fst ` set (dict_set m k v) = insert k (fst ` set m)"
  by (induction m k v rule: dict_set.induct) auto

lemma dict_set_new_key: "k \<notin> fst ` set m \<Longrightarrow> map fst (dict_set m k v) = map fst m @ [k]"
  by (simp add: dict_set_keys)

lemma dict_set_length: "k \<notin> fst ` set m \<Longrightarrow> length (dict_set m k v) = Suc (length m)"
  using dict_set_new_key [of k m v] by (metis length_append_singleton length_map)

lemma run_keys_subset:
  "fst ` set (snd (foldl (migrate_one srv) (s, m) xs)) \<subseteq> fst ` set m \<union> a_id ` set xs"
proof (induction xs arbitrary: s m)
  case Nil
  show ?case by simp
next
  case (Cons a xs)
  obtain s' m' where step: "migrate_one srv (s, m) a = (s', m')"
    by (cases "migrate_one srv (s, m) a")
  with migrate_one_mapping [of srv s m a]
  have "m' = m \<or> (\<exists>rid. m' = dict_set m (a_id a) rid)" by simp
  then have "fst ` set m' \<subseteq> insert (a_id a) (fst ` set m)"
    by (elim disjE exE; simp add: dict_set_key_set subset_insertI)
  with Cons [of s' m'] step show ?case by auto
qed

lemma run_keys_mono:
  "fst ` set m \<subseteq> fst ` set (snd (foldl (migrate_one srv) (s, m) xs))"
proof (induction xs arbitrary: s m)
  case Nil
  show ?case by simp
next
  case (Cons a xs)
  obtain s' m' where step: "migrate_one srv (s, m) a = (s', m')"
    by (cases "migrate_one srv (s, m) a")
  with migrate_one_mapping [of srv s m a]
  have "m' = m \<or> (\<exists>rid. m' = dict_set m (a_id a) rid)" by simp
  then have "fst ` set m \<subseteq> fst ` set m'"
    by (elim disjE exE; simp add: dict_set_key_set subset_insertI)
  with Cons [of m' s'] step show ?case by auto
qed

lemma run_keys_distinct:
  "distinct (map fst m) \<Longrightarrow> distinct (map fst (snd (foldl (migrate_one srv) (s, m) xs)))"
proof (induction xs arbitrary: s m)
  case Nil
  then show ?case by simp
next
  case (Cons a xs)
  obtain s' m' where step: "migrate_one srv (s, m) a = (s', m')"
    by (cases "migrate_one srv (s, m) a")
  with migrate_one_mapping [of srv s m a]
  have "m' = m \<or> (\<exists>rid. m' = dict_set m (a_id a) rid)" by simp
  with Cons.prems have "distinct (map fst m')"
    by (elim disjE exE; simp add: dict_set_distinct)
  with Cons.IH [of m' s'] step show ?case by simp
qed

lemma retrieval_failed_step:
  assumes "retrieval_fails srv (calls s) (a_id a)"
  shows "snd (migrate_one srv (s, m) a) = m"
proof -
  from assms have "snd (fetch_details srv s a) = []" by (simp add: fetch_details_empty_iff)
  then have "fetch_details srv s a = (fst (fetch_details srv s a), [])" by (metis prod.collapse)
  from migrate_one_skip [OF this, of m] show ?thesis by simp
qed

lemma successful_step:
  assumes "\<not> retrieval_fails srv (calls s) (a_id a)" and "\<not> creation_fails srv s a"
  shows "\<exists>rid. snd (migrate_one srv (s, m) a) = dict_set m (a_id a) rid"
proof -
  from assms have "\<not> item_fails srv s a" by (simp add: item_fails_def)
  from migrate_one_item_ok [OF this, of m] show ?thesis by auto
qed

lemma fetched_in_run_simps [simp]:
  "fetched_in_run srv sm [] = []"
  "fetched_in_run srv sm (a # xs) =
     (if retrieval_fails srv (calls (fst sm)) (a_id a) then [] else [a])
     @ fetched_in_run srv (migrate_one srv sm a) xs"
  by (simp_all add: fetched_in_run_def)

lemma failures_in_run_simps [simp]:
  "failures_in_run srv sm [] = 0"
  "failures_in_run srv sm (a # xs) =
     (if retrieval_fails srv (calls (fst sm)) (a_id a) then 1 else 0)
     + failures_in_run srv (migrate_one srv sm a) xs"
  by (simp_all add: failures_in_run_def)

lemma fetched_plus_failures:
  "length (fetched_in_run srv sm xs) + failures_in_run srv sm xs = length xs"
proof (induction xs arbitrary: sm)
  case Nil
  show ?case by simp
next
  case (Cons a xs)
  from Cons [of "migrate_one srv sm a"] show ?case by simp
qed

lemma fetched_in_run_subset: "set (fetched_in_run srv sm xs) \<subseteq> set xs"
proof (induction xs arbitrary: sm)
  case Nil
  show ?case by simp
next
  case (Cons a xs)
  from Cons [of "migrate_one srv sm a"] show ?case by auto
qed

lemma run_keys_are_fetched:
  assumes "creations_succeed srv (s, m) xs"
  shows "fst ` set (snd (foldl (migrate_one srv) (s, m) xs))
           = fst ` set m \<union> a_id ` set (fetched_in_run srv (s, m) xs)"
  using assms
proof (induction xs arbitrary: s m)
  case Nil
  show ?case by simp
next
  case (Cons a xs)
  obtain s' m' where step: "migrate_one srv (s, m) a = (s', m')"
    by (cases "migrate_one srv (s, m) a")
  from Cons.prems step have rest: "creations_succeed srv (s', m') xs" by simp
  show ?case
  proof (cases "retrieval_fails srv (calls s) (a_id a)")
    case True
    with retrieval_failed_step [OF True, of m] step have "m' = m" by simp
    with Cons.IH [OF rest] step True show ?thesis by simp
  next
    case False
    with Cons.prems have "\<not> creation_fails srv s a" by simp
    from successful_step [OF False this, of m] step obtain rid where
      "m' = dict_set m (a_id a) rid"
      by auto
    then have "fst ` set m' = insert (a_id a) (fst ` set m)" by (simp add: dict_set_key_set)
    with Cons.IH [OF rest] step False show ?thesis by auto
  qed
qed

lemma run_keys_in_listing_order:
  assumes "creations_succeed srv (s, m) xs" and "distinct (map fst m @ map a_id xs)"
  shows "map fst (snd (foldl (migrate_one srv) (s, m) xs))
           = map fst m @ map a_id (fetched_in_run srv (s, m) xs)"
  using assms
proof (induction xs arbitrary: s m)
  case Nil
  show ?case by simp
next
  case (Cons a xs)
  obtain s' m' where step: "migrate_one srv (s, m) a = (s', m')"
    by (cases "migrate_one srv (s, m) a")
  from Cons.prems(1) step have rest: "creations_succeed srv (s', m') xs" by simp
  from Cons.prems(2) have new: "a_id a \<notin> fst ` set m" by auto
  show ?case
  proof (cases "retrieval_fails srv (calls s) (a_id a)")
    case True
    with retrieval_failed_step [OF True, of m] step have m': "m' = m" by simp
    with Cons.prems(2) have "distinct (map fst m' @ map a_id xs)" by simp
    from Cons.IH [OF rest this] step True m' show ?thesis by simp
  next
    case False
    with Cons.prems(1) have "\<not> creation_fails srv s a" by simp
    from successful_step [OF False this, of m] step obtain rid where
      "m' = dict_set m (a_id a) rid"
      by auto
    with new have keys: "map fst m' = map fst m @ [a_id a]" by (simp add: dict_set_new_key)
    with Cons.prems(2) have "distinct (map fst m' @ map a_id xs)" by auto
    from Cons.IH [OF rest this] step False keys show ?thesis by simp
  qed
qed

text \<open>
  Claim C2, as the code has it. Let the listing yield \<open>N\<close> entries and end without error,
  let the retrieval of the details fail for \<open>M\<close> of them in the run, and let the creation
  (listing of the deployments, resolution, creation request) succeed for the others.
  The run returns a mapping whose keys are the identifiers of the entries whose details
  were fetched, each key once; there are \<open>N - M\<close> such entries. When the identifiers
  listed are distinct, the mapping has exactly \<open>N - M\<close> entries, one for each of these
  assistants, in listing order.
\<close>

theorem mapping_has_one_entry_per_fetched_id:
  assumes "openai_assistants_list srv (calls s) = (items, None)"
    and "creations_succeed srv (send OpenAI_assistants_list s, []) items"
  shows "\<exists>m. snd (migrate_all_assistants srv s) = Inr m
           \<and> distinct (map fst m)
           \<and> set (map fst m)
               = a_id ` set (fetched_in_run srv (send OpenAI_assistants_list s, []) items)
           \<and> length (fetched_in_run srv (send OpenAI_assistants_list s, []) items)
               = length items - failures_in_run srv (send OpenAI_assistants_list s, []) items
           \<and> (distinct (map a_id items) \<longrightarrow>
                map fst m
                  = map a_id (fetched_in_run srv (send OpenAI_assistants_list s, []) items)
                \<and> length m
                    = length items - failures_in_run srv (send OpenAI_assistants_list s, []) items)"
proof -
  let ?s0 = "send OpenAI_assistants_list s"
  let ?m = "snd (foldl (migrate_one srv) (?s0, []) items)"
  have result: "snd (migrate_all_assistants srv s) = Inr ?m"
    using assms(1) by (simp add: migrate_all_assistants_def split: prod.splits)
  have d: "distinct (map fst ?m)" by (rule run_keys_distinct) simp
  have keys: "set (map fst ?m) = a_id ` set (fetched_in_run srv (?s0, []) items)"
    using run_keys_are_fetched [OF assms(2)] by simp
  have count: "length (fetched_in_run srv (?s0, []) items)
      = length items - failures_in_run srv (?s0, []) items"
    using fetched_plus_failures [of srv "(?s0, [])" items] by simp
  have ordered: "map fst ?m = map a_id (fetched_in_run srv (?s0, []) items)
      \<and> length ?m = length items - failures_in_run srv (?s0, []) items"
    if "distinct (map a_id items)"
  proof -
    from that have "distinct (map fst ([] :: (string \<times> string) list) @ map a_id items)" by simp
    from run_keys_in_listing_order [OF assms(2) this]
    have k: "map fst ?m = map a_id (fetched_in_run srv (?s0, []) items)" by simp
    then have "length ?m = length (fetched_in_run srv (?s0, []) items)"
      by (metis length_map)
    with k count show ?thesis by simp
  qed
  from result d keys count ordered show ?thesis by blast
qed

text \<open>
  The theorem where the source lists two assistants and cannot retrieve the first:
  \<open>N = 2\<close>, \<open>M = 1\<close>, and the mapping has the one entry of the second assistant.
\<close>

theorem mapping_has_one_entry_per_fetched_id_witness:
  "retrieval_failures retrieve_fails_services (send OpenAI_assistants_list initial_state, [])
       [asst_helper, asst_plain] = [True, False]
   \<and> (\<exists>m. snd (migrate_all_assistants retrieve_fails_services initial_state) = Inr m
          \<and> length m = 1 \<and> map fst m = [''asst_2''])"
proof -
  let ?srv = retrieve_fails_services
  let ?sm = "(send OpenAI_assistants_list initial_state, [] :: (string \<times> string) list)"
  have l: "openai_assistants_list ?srv (calls initial_state) = ([asst_helper, asst_plain], None)"
    by (simp add: retrieve_fails_services_def example_services_def)
  have c: "creations_succeed ?srv ?sm [asst_helper, asst_plain]" by code_simp
  have d: "distinct (map a_id [asst_helper, asst_plain])"
    by (simp add: asst_helper_def asst_plain_def)
  have R: "retrieval_failures ?srv ?sm [asst_helper, asst_plain] = [True, False]" by code_simp
  have M: "failures_in_run ?srv ?sm [asst_helper, asst_plain] = 1"
    unfolding failures_in_run_def R by simp
  have F: "fetched_in_run ?srv ?sm [asst_helper, asst_plain] = [asst_plain]"
    unfolding fetched_in_run_def R by simp
  from mapping_has_one_entry_per_fetched_id [OF l c] d obtain m where
    m: "snd (migrate_all_assistants ?srv initial_state) = Inr m"
    and keys: "map fst m = map a_id (fetched_in_run ?srv ?sm [asst_helper, asst_plain])"
    and len: "length m = length [asst_helper, asst_plain]
        - failures_in_run ?srv ?sm [asst_helper, asst_plain]"
    by blast
  from len [unfolded M] have "length m = 1" by simp
  moreover from keys [unfolded F] have "map fst m = [''asst_2'']" by (simp add: asst_plain_def)
  ultimately have "\<exists>m. snd (migrate_all_assistants ?srv initial_state) = Inr m
          \<and> length m = 1 \<and> map fst m = [''asst_2'']"
    using m by auto
  with R show ?thesis by simp
qed

text \<open>
  Claim C2 as stated fails where the source lists the second assistant twice: three
  entries are listed, no retrieval fails and every creation succeeds, and the mapping has
  two entries, the second creation of the repeated assistant having replaced the first.
\<close>

theorem repeated_id_mapping_counterexample:
  "openai_assistants_list repeated_listing_services (calls initial_state)
     = ([asst_helper, asst_plain, asst_plain], None)
   \<and> retrieval_failures repeated_listing_services (send OpenAI_assistants_list initial_state, [])
       [asst_helper, asst_plain, asst_plain] = [False, False, False]
   \<and> creations_succeed repeated_listing_services (send OpenAI_assistants_list initial_state, [])
       [asst_helper, asst_plain, asst_plain]
   \<and> snd (migrate_all_assistants repeated_listing_services initial_state)
       = Inr [(''asst_1'', ''asst_az_9''), (''asst_2'', ''asst_az_15'')]"
  by code_simp

subsection \<open>A failed step skips the assistant, a failed upload only the file\<close>

lemma migrate_all_assistants_unfold:
  assumes "openai_assistants_list srv (calls s) = (pre @ a # post, None)"
    and "foldl (migrate_one srv) (send OpenAI_assistants_list s, []) pre = (sa, ma)"
  shows "migrate_all_assistants srv s
           = (case foldl (migrate_one srv) (migrate_one srv (sa, ma) a) post of
                (sf, m) \<Rightarrow> (sf, Inr m))"
  using assms by (simp add: migrate_all_assistants_def)

lemma upload_raises:
  assumes "upload_answer srv t p = Inl e"
  shows "snd (upload_file_to_azure srv t p) = None"
    and "log (fst (upload_file_to_azure srv t p))
           = log t @ [(INFO, ''Uploading file '' @ p @ '' to Azure OpenAI...''),
                      (ERROR, ''Failed to upload file to Azure OpenAI: '' @ str_exn e)]"
  using assms
  by (auto simp: upload_answer_def upload_file_to_azure_def split: option.splits sum.splits)

lemma upload_gives_identifier:
  assumes "upload_answer srv t p = Inr rid"
  shows "snd (upload_file_to_azure srv t p) = Some rid"
  using assms
  by (auto simp: upload_answer_def upload_file_to_azure_def split: option.splits sum.splits)

lemma create_request_file_ids:
  assumes "Azure_assistants_create r
             \<in> set (drop (length (calls t)) (calls (fst (create_azure_assistant srv t d))))"
  shows "cr_file_ids r = snd (upload_files srv (creating d t) [] (get_file_details d))"
proof -
  obtain s2 fids where u: "upload_files srv (creating d t) [] (get_file_details d) = (s2, fids)"
    by (cases "upload_files srv (creating d t) [] (get_file_details d)")
  let ?P = "\<lambda>c. \<not> is_upload c"
  have up: "filter ?P (calls s2) = filter ?P (calls t)"
    using upload_files_filter [of ?P srv "creating d t" "[]" "get_file_details d"] u by simp
  obtain new where new: "calls s2 = calls t @ new"
    using upload_files_calls_grow [of srv "creating d t" "[]" "get_file_details d"] u by auto
  with up have "filter ?P new = []" by simp
  then have uploads: "\<forall>c \<in> set new. is_upload c" by (simp add: filter_empty_conv)
  from create_azure_assistant_calls [OF u] new
  have "set (drop (length (calls t)) (calls (fst (create_azure_assistant srv t d))))
      \<subseteq> set new \<union> {Azure_models_list} \<union> {Azure_assistants_create (the_request d m fids) | m. True}"
    by auto
  with assms uploads obtain m where "r = the_request d m fids" by fastforce
  with u show ?thesis by (simp add: the_request_def)
qed

text \<open>
  Claim C3, as the code has it. Let the listing end without error, and let the loop reach
  its entry \<open>a\<close> in state \<open>sa\<close> with the mapping \<open>ma\<close>. If a step of \<open>a\<close> fails (the retrieval
  of its details, a file download, the listing or the resolution of the deployments, the
  creation request), then the body of the loop leaves the mapping as it was, the last
  line it logs is an error, and the run goes on with the entries listed after \<open>a\<close>. The
  run returns a mapping in every case: the identifier of \<open>a\<close> is a key of it when none of
  these steps fails, and is not when one fails and the identifier is listed only once.

  The upload of a file is not such a step. An upload that raises, in whatever state
  \<open>t\<close>, is logged as an error and gives no identifier: the identifiers collected so far
  are kept and the uploads go on with the remaining files. An upload that gives an
  identifier adds it. The creation request that follows carries the identifiers
  collected.
\<close>

theorem failed_step_skips_the_assistant:
  assumes "openai_assistants_list srv (calls s) = (pre @ a # post, None)"
    and "foldl (migrate_one srv) (send OpenAI_assistants_list s, []) pre = (sa, ma)"
  shows "(item_fails srv sa a \<longrightarrow>
            (\<exists>sb old msg.
               migrate_one srv (sa, ma) a = (sb, ma)
               \<and> log sb = log sa @ old @ [(ERROR, msg)]
               \<and> migrate_all_assistants srv s
                   = (case foldl (migrate_one srv) (sb, ma) post of (sf, m) \<Rightarrow> (sf, Inr m))))
         \<and> (\<exists>m. snd (migrate_all_assistants srv s) = Inr m
                \<and> (\<not> item_fails srv sa a \<longrightarrow> a_id a \<in> fst ` set m)
                \<and> (item_fails srv sa a \<and> a_id a \<notin> a_id ` set pre \<and> a_id a \<notin> a_id ` set post
                      \<longrightarrow> a_id a \<notin> fst ` set m))
         \<and> (\<forall>t acc fd rest e.
               upload_answer srv t (fd_path fd) = Inl e \<longrightarrow>
                 (\<exists>t'. upload_files srv t acc (fd # rest) = upload_files srv t' acc rest
                        \<and> log t' = log t
                             @ [(INFO, ''Uploading file '' @ fd_path fd @ '' to Azure OpenAI...''),
                                (ERROR, ''Failed to upload file to Azure OpenAI: '' @ str_exn e)]))
         \<and> (\<forall>t acc fd rest rid.
               upload_answer srv t (fd_path fd) = Inr rid \<and> rid \<noteq> [] \<longrightarrow>
                 (\<exists>t'. upload_files srv t acc (fd # rest) = upload_files srv t' (acc @ [rid]) rest))
         \<and> (\<forall>t d r.
               Azure_assistants_create r
                 \<in> set (drop (length (calls t)) (calls (fst (create_azure_assistant srv t d))))
               \<longrightarrow> cr_file_ids r = snd (upload_files srv (creating d t) [] (get_file_details d)))"
proof -
  note run = migrate_all_assistants_unfold [OF assms]
  obtain sb mb where step: "migrate_one srv (sa, ma) a = (sb, mb)"
    by (cases "migrate_one srv (sa, ma) a")
  let ?m = "snd (foldl (migrate_one srv) (sb, mb) post)"
  from run step have result: "snd (migrate_all_assistants srv s) = Inr ?m"
    by (simp split: prod.splits)
  have before: "fst ` set ma \<subseteq> a_id ` set pre"
    using run_keys_subset [of srv "send OpenAI_assistants_list s" "[]" pre] assms(2) by simp
  have first: "\<exists>sb old msg.
               migrate_one srv (sa, ma) a = (sb, ma)
               \<and> log sb = log sa @ old @ [(ERROR, msg)]
               \<and> migrate_all_assistants srv s
                   = (case foldl (migrate_one srv) (sb, ma) post of (sf, m) \<Rightarrow> (sf, Inr m))"
    if "item_fails srv sa a"
  proof -
    from migrate_one_item_fails [OF that, of ma] obtain sb' old msg where
      "migrate_one srv (sa, ma) a = (sb', ma)" "log sb' = log sa @ old @ [(ERROR, msg)]"
      by blast
    with run show ?thesis by auto
  qed
  have kept: "a_id a \<in> fst ` set ?m" if "\<not> item_fails srv sa a"
  proof -
    from migrate_one_item_ok [OF that, of ma] step obtain rid where
      "mb = dict_set ma (a_id a) rid"
      by auto
    then have "a_id a \<in> fst ` set mb" by (simp add: dict_set_key_set)
    with run_keys_mono [of mb srv sb post] show ?thesis by auto
  qed
  have omitted: "a_id a \<notin> fst ` set ?m"
    if "item_fails srv sa a" "a_id a \<notin> a_id ` set pre" "a_id a \<notin> a_id ` set post"
  proof -
    from migrate_one_item_fails [OF that(1), of ma] step have "mb = ma" by auto
    with run_keys_subset [of srv sb mb post] before that(2,3) show ?thesis by auto
  qed
  have refused: "\<exists>t'. upload_files srv t acc (fd # rest) = upload_files srv t' acc rest
        \<and> log t' = log t
             @ [(INFO, ''Uploading file '' @ fd_path fd @ '' to Azure OpenAI...''),
                (ERROR, ''Failed to upload file to Azure OpenAI: '' @ str_exn e)]"
    if "upload_answer srv t (fd_path fd) = Inl e" for t acc fd rest e
  proof -
    obtain t' r where u: "upload_file_to_azure srv t (fd_path fd) = (t', r)"
      by (cases "upload_file_to_azure srv t (fd_path fd)")
    with upload_raises [OF that] have r: "r = None"
      and l: "log t' = log t
             @ [(INFO, ''Uploading file '' @ fd_path fd @ '' to Azure OpenAI...''),
                (ERROR, ''Failed to upload file to Azure OpenAI: '' @ str_exn e)]"
      by simp_all
    from u r have "upload_files srv t acc (fd # rest) = upload_files srv t' acc rest" by simp
    with l show ?thesis by blast
  qed
  have accepted: "\<exists>t'. upload_files srv t acc (fd # rest) = upload_files srv t' (acc @ [rid]) rest"
    if "upload_answer srv t (fd_path fd) = Inr rid" "rid \<noteq> []" for t acc fd rest rid
  proof -
    obtain t' r where u: "upload_file_to_azure srv t (fd_path fd) = (t', r)"
      by (cases "upload_file_to_azure srv t (fd_path fd)")
    with upload_gives_identifier [OF that(1)] have "r = Some rid" by simp
    with u that(2)
    have "upload_files srv t acc (fd # rest) = upload_files srv t' (acc @ [rid]) rest" by simp
    then show ?thesis by blast
  qed
  from first result kept omitted refused accepted create_request_file_ids [of _ _ srv]
  show ?thesis by blast
qed

text \<open>
  The theorem where the source cannot retrieve the first of the two listed assistants:
  the step fails, the run returns a mapping, the first assistant is not in it and the
  second is. And for the uploads: where the local file is missing the upload raises and
  the identifier collected before it is kept; after the file is downloaded the upload
  gives an identifier, which is added; and the creation request of the second assistant
  carries the identifiers collected, here none.
\<close>

theorem failed_step_skips_the_assistant_witness:
  "item_fails retrieve_fails_services (send OpenAI_assistants_list initial_state) asst_helper
   \<and> (\<exists>m. snd (migrate_all_assistants retrieve_fails_services initial_state) = Inr m
          \<and> ''asst_1'' \<notin> fst ` set m \<and> ''asst_2'' \<in> fst ` set m)
   \<and> snd (upload_files retrieve_fails_services initial_state [''file-0'']
            [\<lparr>fd_id = ''file_1'', fd_path = ''/tmp/notes.txt''\<rparr>]) = [''file-0'']
   \<and> snd (upload_files retrieve_fails_services
            (fst (download_file retrieve_fails_services initial_state ''file_1'')) [''file-0'']
            [\<lparr>fd_id = ''file_1'', fd_path = ''/tmp/notes.txt''\<rparr>]) = [''file-0'', ''file-2'']
   \<and> cr_file_ids
         \<lparr>cr_name = None, cr_instructions = Some ''Be brief'', cr_model = ''gpt-4-turbo'',
          cr_tools = [], cr_file_ids = []\<rparr>
       = snd (upload_files retrieve_fails_services
                (creating (full_details asst_plain []) initial_state) []
                (get_file_details (full_details asst_plain [])))"
proof -
  let ?srv = retrieve_fails_services
  let ?s0 = "send OpenAI_assistants_list initial_state"
  let ?fd = "\<lparr>fd_id = ''file_1'', fd_path = ''/tmp/notes.txt''\<rparr>"
  let ?sa = "fst (foldl (migrate_one ?srv) (?s0, []) [asst_helper])"
  let ?ma = "snd (foldl (migrate_one ?srv) (?s0, []) [asst_helper])"
  let ?t = "fst (download_file ?srv initial_state ''file_1'')"
  let ?d = "full_details asst_plain []"
  let ?r = "\<lparr>cr_name = None, cr_instructions = Some ''Be brief'', cr_model = ''gpt-4-turbo'',
             cr_tools = [], cr_file_ids = []\<rparr>"
  have l1: "openai_assistants_list ?srv (calls initial_state)
              = ([] @ asst_helper # [asst_plain], None)"
    by (simp add: retrieve_fails_services_def example_services_def)
  have l2: "openai_assistants_list ?srv (calls initial_state)
              = ([asst_helper] @ asst_plain # [], None)"
    by (simp add: retrieve_fails_services_def example_services_def)
  have p1: "foldl (migrate_one ?srv) (?s0, []) [] = (?s0, [])" by simp
  have p2: "foldl (migrate_one ?srv) (?s0, []) [asst_helper] = (?sa, ?ma)" by simp
  have f1: "item_fails ?srv ?s0 asst_helper"
    by (simp add: item_fails_def retrieval_fails_def retrieve_fails_services_def
          example_services_def asst_helper_def)
  have f2: "\<not> item_fails ?srv ?sa asst_plain" by code_simp
  have i: "a_id asst_helper = ''asst_1''" "a_id asst_plain = ''asst_2''"
    by (simp_all add: asst_helper_def asst_plain_def)
  have u1: "upload_answer ?srv initial_state (fd_path ?fd)
              = Inl (Exception ''No such file or directory: /tmp/notes.txt'')"
    by (simp add: upload_answer_def initial_state_def retrieve_fails_services_def
          example_services_def)
  have u2: "upload_answer ?srv ?t (fd_path ?fd) = Inr ''file-2''" by code_simp
  have sent: "Azure_assistants_create ?r
      \<in> set (drop (length (calls initial_state))
               (calls (fst (create_azure_assistant ?srv initial_state ?d))))"
    by code_simp
  note T1 = failed_step_skips_the_assistant [OF l1 p1]
  note T2 = failed_step_skips_the_assistant [OF l2 p2]
  from T1 f1 i obtain m where
    m: "snd (migrate_all_assistants ?srv initial_state) = Inr m" and "''asst_1'' \<notin> fst ` set m"
    by auto
  moreover from T2 f2 i m have "''asst_2'' \<in> fst ` set m" by auto
  ultimately have run: "\<exists>m. snd (migrate_all_assistants ?srv initial_state) = Inr m
          \<and> ''asst_1'' \<notin> fst ` set m \<and> ''asst_2'' \<in> fst ` set m"
    by blast
  from T1 u1 obtain t' where
    "upload_files ?srv initial_state [''file-0''] (?fd # []) = upload_files ?srv t' [''file-0''] []"
    by blast
  then have refused: "snd (upload_files ?srv initial_state [''file-0''] [?fd]) = [''file-0'']"
    by simp
  from T1 u2 have "\<exists>t'. upload_files ?srv ?t [''file-0''] (?fd # [])
      = upload_files ?srv t' ([''file-0''] @ [''file-2'']) []"
    by blast
  then have accepted: "snd (upload_files ?srv ?t [''file-0''] [?fd]) = [''file-0'', ''file-2'']"
    by auto
  from T1 sent have carried: "cr_file_ids ?r
      = snd (upload_files ?srv (creating ?d initial_state) [] (get_file_details ?d))"
    by blast
  from f1 run refused accepted carried show ?thesis by blast
qed

text \<open>
  Claim C3 as stated fails where the destination refuses every file: both uploads of the
  first assistant fail and are logged, and the assistant is created without files and is
  in the mapping.
\<close>

theorem upload_failure_keeps_assistant_counterexample:
  "(ERROR, ''Failed to upload file to Azure OpenAI: upload refused'')
     \<in> set (log (fst (migrate_all_assistants upload_refused_services initial_state)))
   \<and> snd (migrate_all_assistants upload_refused_services initial_state)
       = Inr [(''asst_1'', ''asst_az_9''), (''asst_2'', ''asst_az_12'')]
   \<and> filter is_create (calls (fst (migrate_all_assistants upload_refused_services initial_state)))
       = [Azure_assistants_create
            \<lparr>cr_name = Some ''Helper'', cr_instructions = None, cr_model = ''gpt-4-turbo'',
             cr_tools = [Tool ''retrieval''], cr_file_ids = []\<rparr>,
          Azure_assistants_create
            \<lparr>cr_name = None, cr_instructions = Some ''Be brief'', cr_model = ''gpt-4-turbo'',
             cr_tools = [], cr_file_ids = []\<rparr>]"
  by code_simp

subsection \<open>Each listed assistant is processed once\<close>

lemma migrate_one_calls:
  assumes "fetch_details srv t a = (s2, d)"
  shows "calls (fst (migrate_one srv (t, m) a))
           = (if d = [] then calls s2 else calls (fst (create_azure_assistant srv s2 d)))"
proof (cases "d = []")
  case True
  with assms migrate_one_skip [of srv t a s2 m] show ?thesis by simp
next
  case False
  obtain s3 r where c: "create_azure_assistant srv s2 d = (s3, r)"
    by (cases "create_azure_assistant srv s2 d")
  show ?thesis
    using migrate_one_failed [OF assms False c, of m] migrate_one_migrated [OF assms False c, of m]
      False c
    by (cases "truthy r") simp_all
qed

lemma fetch_details_filter:
  assumes "\<And>f. \<not> P (OpenAI_files_content f)" "\<And>f. \<not> P (OpenAI_files_retrieve f)"
  shows "filter P (calls (fst (fetch_details srv t a)))
           = filter P (calls t) @ filter P [OpenAI_assistants_retrieve (a_id a)]"
  unfolding fetch_details_def
  using get_assistant_details_filter [of P srv _ "a_id a"] assms by simp

lemma migrate_one_retrievals:
  "count_list (calls (fst (migrate_one srv (t, m) a))) (OpenAI_assistants_retrieve i)
     = count_list (calls t) (OpenAI_assistants_retrieve i) + (if a_id a = i then 1 else 0)"
proof -
  let ?P = "(=) (OpenAI_assistants_retrieve i)"
  obtain s2 d where f: "fetch_details srv t a = (s2, d)" by (cases "fetch_details srv t a")
  have "filter ?P (calls s2) = filter ?P (calls t) @ filter ?P [OpenAI_assistants_retrieve (a_id a)]"
    using fetch_details_filter [of ?P srv t a] f by simp
  then have fetched: "length (filter ?P (calls s2))
      = length (filter ?P (calls t)) + (if a_id a = i then 1 else 0)"
    by auto
  have created: "filter ?P (calls (fst (create_azure_assistant srv s2 d))) = filter ?P (calls s2)"
    by (rule create_azure_assistant_filter) simp_all
  have "length (filter ?P (calls (fst (migrate_one srv (t, m) a))))
      = length (filter ?P (calls t)) + (if a_id a = i then 1 else 0)"
  proof (cases "d = []")
    case True
    with migrate_one_calls [OF f, of m] fetched show ?thesis by simp
  next
    case False
    with migrate_one_calls [OF f, of m] fetched created show ?thesis by simp
  qed
  then show ?thesis by (simp add: count_list_eq_length_filter)
qed

lemma migrate_one_creations:
  "length (filter is_create (calls (fst (migrate_one srv (t, m) a))))
     \<le> length (filter is_create (calls t)) + 1"
proof -
  obtain s2 d where f: "fetch_details srv t a = (s2, d)" by (cases "fetch_details srv t a")
  have "filter is_create (calls s2)
      = filter is_create (calls t) @ filter is_create [OpenAI_assistants_retrieve (a_id a)]"
    using fetch_details_filter [of is_create srv t a] f by simp
  then have "filter is_create (calls s2) = filter is_create (calls t)" by simp
  with create_azure_assistant_creates_at_most_one [of srv s2 d] migrate_one_calls [OF f, of m]
  show ?thesis by simp
qed

lemma run_retrievals:
  "count_list (calls (fst (foldl (migrate_one srv) (t, m) xs))) (OpenAI_assistants_retrieve i)
     = count_list (calls t) (OpenAI_assistants_retrieve i) + count_list (map a_id xs) i"
proof (induction xs arbitrary: t m)
  case Nil
  show ?case by simp
next
  case (Cons a xs)
  obtain t' m' where step: "migrate_one srv (t, m) a = (t', m')"
    by (cases "migrate_one srv (t, m) a")
  with migrate_one_retrievals [of srv t m a i]
  have "count_list (calls t') (OpenAI_assistants_retrieve i)
      = count_list (calls t) (OpenAI_assistants_retrieve i) + (if a_id a = i then 1 else 0)"
    by simp
  with Cons [of t' m'] step show ?case by simp
qed

lemma run_creations:
  "length (filter is_create (calls (fst (foldl (migrate_one srv) (t, m) xs))))
     \<le> length (filter is_create (calls t)) + length xs"
proof (induction xs arbitrary: t m)
  case Nil
  show ?case by simp
next
  case (Cons a xs)
  obtain t' m' where step: "migrate_one srv (t, m) a = (t', m')"
    by (cases "migrate_one srv (t, m) a")
  with migrate_one_creations [of srv t m a]
  have "length (filter is_create (calls t')) \<le> length (filter is_create (calls t)) + 1"
    by simp
  with Cons [of t' m'] step show ?case by simp
qed

lemma migrate_all_assistants_state:
  assumes "openai_assistants_list srv (calls s) = (items, failure)"
  shows "fst (migrate_all_assistants srv s)
           = fst (foldl (migrate_one srv) (send OpenAI_assistants_list s, []) items)"
    and "snd (migrate_all_assistants srv s) = Inr m
           \<Longrightarrow> m = snd (foldl (migrate_one srv) (send OpenAI_assistants_list s, []) items)"
  using assms by (auto simp: migrate_all_assistants_def split: prod.splits option.splits)

lemma migrate_one_creations_grow:
  "length (filter is_create (calls t))
     \<le> length (filter is_create (calls (fst (migrate_one srv (t, m) a))))"
proof -
  obtain s2 d where f: "fetch_details srv t a = (s2, d)" by (cases "fetch_details srv t a")
  obtain s3 fids where u: "upload_files srv (creating d s2) [] (get_file_details d) = (s3, fids)"
    by (cases "upload_files srv (creating d s2) [] (get_file_details d)")
  have "filter is_create (calls s2)
      = filter is_create (calls t) @ filter is_create [OpenAI_assistants_retrieve (a_id a)]"
    using fetch_details_filter [of is_create srv t a] f by simp
  then have fetched: "filter is_create (calls s2) = filter is_create (calls t)" by simp
  have "filter is_create (calls s3) = filter is_create (calls s2)"
    using upload_files_filter [of is_create srv "creating d s2" "[]" "get_file_details d"] u
    by simp
  with create_azure_assistant_calls [OF u]
  have "length (filter is_create (calls s2))
      \<le> length (filter is_create (calls (fst (create_azure_assistant srv s2 d))))"
    by auto
  with fetched migrate_one_calls [OF f, of m] show ?thesis by simp
qed

lemma entry_creations_ids: "map fst (entry_creations srv sm xs) = map a_id xs"
proof (induction xs arbitrary: sm)
  case Nil
  show ?case by simp
next
  case (Cons a xs)
  from Cons [of "migrate_one srv sm a"] show ?case by simp
qed

lemma entry_creations_at_most_one: "\<forall>e \<in> set (entry_creations srv sm xs). snd e \<le> 1"
proof (induction xs arbitrary: sm)
  case Nil
  show ?case by simp
next
  case (Cons a xs)
  obtain t m where sm: "sm = (t, m)" by (cases sm)
  from migrate_one_creations [of srv t m a] sm
  have "length (filter is_create (calls (fst (migrate_one srv sm a))))
      - length (filter is_create (calls (fst sm))) \<le> 1"
    by simp
  with Cons [of "migrate_one srv sm a"] show ?case by simp
qed

lemma entry_creations_total:
  "length (filter is_create (calls (fst (foldl (migrate_one srv) sm xs))))
     = length (filter is_create (calls (fst sm))) + sum_list (map snd (entry_creations srv sm xs))"
proof (induction xs arbitrary: sm)
  case Nil
  show ?case by simp
next
  case (Cons a xs)
  obtain t m where sm: "sm = (t, m)" by (cases sm)
  from migrate_one_creations_grow [of t srv m a] sm
  have "length (filter is_create (calls (fst sm)))
      \<le> length (filter is_create (calls (fst (migrate_one srv sm a))))"
    by simp
  with Cons [of "migrate_one srv sm a"] show ?case by simp
qed

lemma bounded_sum_of_selected:
  assumes "\<forall>e \<in> set es. snd e \<le> (1::nat)"
  shows "sum_list (map snd (filter (\<lambda>e. fst e = i) es)) \<le> count_list (map fst es) i"
  using assms by (induction es) auto

text \<open>
  Claim C7, as the code has it. In one run over the listing \<open>items\<close>, every entry is
  handled once, in order: the details of identifier \<open>i\<close> are requested once for each time
  \<open>i\<close> is listed, and while the body of the loop handles an entry at most one creation
  request is sent; these are all the creation requests of the run. So the entries of
  identifier \<open>i\<close> yield at most as many destination assistants as \<open>i\<close> is listed: at
  most one when it is listed once. The mapping returned has each key once, all of them
  listed identifiers. Nothing is looked up before creating: whatever requests the history
  \<open>t\<close> holds and whatever mapping \<open>m\<close> is built, once the details of \<open>a\<close> are there and a
  deployment is resolved the creation request is sent.
\<close>

theorem one_creation_per_listing_entry:
  assumes "openai_assistants_list srv (calls s) = (items, failure)"
  shows "count_list (calls (fst (migrate_all_assistants srv s))) (OpenAI_assistants_retrieve i)
           = count_list (calls s) (OpenAI_assistants_retrieve i) + count_list (map a_id items) i
         \<and> map fst (entry_creations srv (send OpenAI_assistants_list s, []) items)
             = map a_id items
         \<and> (\<forall>e \<in> set (entry_creations srv (send OpenAI_assistants_list s, []) items). snd e \<le> 1)
         \<and> length (filter is_create (calls (fst (migrate_all_assistants srv s))))
             = length (filter is_create (calls s))
               + sum_list (map snd (entry_creations srv (send OpenAI_assistants_list s, []) items))
         \<and> sum_list (map snd (filter (\<lambda>e. fst e = i)
                (entry_creations srv (send OpenAI_assistants_list s, []) items)))
             \<le> count_list (map a_id items) i
         \<and> (\<forall>mapping. snd (migrate_all_assistants srv s) = Inr mapping \<longrightarrow>
              distinct (map fst mapping) \<and> fst ` set mapping \<subseteq> a_id ` set items)
         \<and> (\<forall>ids mdl.
              snd (fetch_details srv t a) \<noteq> []
              \<and> azure_models_list srv
                   (calls (fst (upload_files srv
                      (creating (snd (fetch_details srv t a)) (fst (fetch_details srv t a))) []
                      (get_file_details (snd (fetch_details srv t a)))))) = Inr ids
              \<and> resolve_target_model (get_model (snd (fetch_details srv t a))) ids = Some mdl
              \<longrightarrow> (\<exists>r. cr_model r = mdl
                       \<and> last (calls (fst (migrate_one srv (t, m) a))) = Azure_assistants_create r
                       \<and> length (filter is_create (calls (fst (migrate_one srv (t, m) a))))
                           = length (filter is_create (calls t)) + 1))"
proof -
  let ?s0 = "send OpenAI_assistants_list s"
  let ?ec = "entry_creations srv (?s0, []) items"
  note st = migrate_all_assistants_state [OF assms]
  have retr: "count_list (calls (fst (migrate_all_assistants srv s))) (OpenAI_assistants_retrieve i)
           = count_list (calls s) (OpenAI_assistants_retrieve i) + count_list (map a_id items) i"
    using run_retrievals [of srv ?s0 "[]" items i] st(1) by simp
  have ids: "map fst ?ec = map a_id items" by (rule entry_creations_ids)
  have one: "\<forall>e \<in> set ?ec. snd e \<le> 1" by (rule entry_creations_at_most_one)
  have total: "length (filter is_create (calls (fst (migrate_all_assistants srv s))))
      = length (filter is_create (calls s)) + sum_list (map snd ?ec)"
    using entry_creations_total [of srv "(?s0, [])" items] st(1) by simp
  have per_id: "sum_list (map snd (filter (\<lambda>e. fst e = i) ?ec)) \<le> count_list (map a_id items) i"
    using bounded_sum_of_selected [OF one, of i] ids by simp
  have keys: "distinct (map fst mapping) \<and> fst ` set mapping \<subseteq> a_id ` set items"
    if "snd (migrate_all_assistants srv s) = Inr mapping" for mapping
  proof -
    from st(2) [OF that] have "mapping = snd (foldl (migrate_one srv) (?s0, []) items)" .
    with run_keys_distinct [of "[]" srv ?s0 items] run_keys_subset [of srv ?s0 "[]" items]
    show ?thesis by simp
  qed
  have again: "\<exists>r. cr_model r = mdl
                 \<and> last (calls (fst (migrate_one srv (t, m) a))) = Azure_assistants_create r
                 \<and> length (filter is_create (calls (fst (migrate_one srv (t, m) a))))
                     = length (filter is_create (calls t)) + 1"
    if d: "snd (fetch_details srv t a) \<noteq> []"
      and l: "azure_models_list srv
                (calls (fst (upload_files srv
                   (creating (snd (fetch_details srv t a)) (fst (fetch_details srv t a))) []
                   (get_file_details (snd (fetch_details srv t a)))))) = Inr ids"
      and r: "resolve_target_model (get_model (snd (fetch_details srv t a))) ids = Some mdl"
    for ids mdl
  proof -
    obtain s2 d where f: "fetch_details srv t a = (s2, d)" by (cases "fetch_details srv t a")
    obtain s3 fids where u: "upload_files srv (creating d s2) [] (get_file_details d) = (s3, fids)"
      by (cases "upload_files srv (creating d s2) [] (get_file_details d)")
    from f d have ne: "d \<noteq> []" by simp
    from f u l have l': "azure_models_list srv (calls s3) = Inr ids" by simp
    from f r have r': "resolve_target_model (get_model d) ids = Some mdl" by simp
    have sent: "calls (fst (create_azure_assistant srv s2 d))
        = calls s3 @ [Azure_models_list, Azure_assistants_create (the_request d mdl fids)]"
    proof (cases "azure_assistants_create srv (calls s3 @ [Azure_models_list])
                    (the_request d mdl fids)")
      case (Inl exc)
      show ?thesis using create_azure_assistant_create_error [OF u l' r' Inl] by auto
    next
      case (Inr rid)
      show ?thesis using create_azure_assistant_created [OF u l' r' Inr] by auto
    qed
    with migrate_one_calls [OF f, of m] ne
    have calls: "calls (fst (migrate_one srv (t, m) a))
        = calls s3 @ [Azure_models_list, Azure_assistants_create (the_request d mdl fids)]"
      by simp
    have "filter is_create (calls s2)
        = filter is_create (calls t) @ filter is_create [OpenAI_assistants_retrieve (a_id a)]"
      using fetch_details_filter [of is_create srv t a] f by simp
    moreover have "filter is_create (calls s3) = filter is_create (calls s2)"
      using upload_files_filter [of is_create srv "creating d s2" "[]" "get_file_details d"] u
      by simp
    ultimately have "length (filter is_create (calls (fst (migrate_one srv (t, m) a))))
        = length (filter is_create (calls t)) + 1"
      using calls by simp
    moreover have "cr_model (the_request d mdl fids) = mdl" by (simp add: the_request_def)
    ultimately show ?thesis using calls by auto
  qed
  from retr ids one total per_id keys again show ?thesis by blast
qed

text \<open>
  The theorem in the example world: one run retrieves the first assistant once and sends
  at most one creation request for it; handling the second assistant again in the state
  that the run left, where it was already created, sends a third creation request.
\<close>

theorem one_creation_per_listing_entry_witness:
  "count_list (calls (fst (migrate_all_assistants example_services initial_state)))
       (OpenAI_assistants_retrieve ''asst_1'') = 1
   \<and> sum_list (map snd (filter (\<lambda>e. fst e = ''asst_1'')
          (entry_creations example_services (send OpenAI_assistants_list initial_state, [])
             [asst_helper, asst_plain]))) \<le> 1
   \<and> snd (migrate_all_assistants example_services initial_state)
       = Inr [(''asst_1'', ''asst_az_9''), (''asst_2'', ''asst_az_12'')]
   \<and> length (filter is_create (calls (fst (migrate_one example_services
         (fst (migrate_all_assistants example_services initial_state),
          [(''asst_1'', ''asst_az_9''), (''asst_2'', ''asst_az_12'')]) asst_plain))))
       = 3"
proof -
  let ?srv = example_services
  let ?t = "fst (migrate_all_assistants ?srv initial_state)"
  let ?m = "[(''asst_1'', ''asst_az_9''), (''asst_2'', ''asst_az_12'')]"
  have l: "openai_assistants_list ?srv (calls initial_state) = ([asst_helper, asst_plain], None)"
    by (simp add: example_services_def)
  have c: "count_list (map a_id [asst_helper, asst_plain]) ''asst_1'' = 1"
    by (simp add: asst_helper_def asst_plain_def)
  have r: "openai_assistants_retrieve ?srv h (a_id asst_plain) = Inr asst_plain" for h
    by (simp add: example_services_def asst_plain_def)
  have e: "a_file_ids asst_plain = []" by (simp add: asst_plain_def)
  have f: "snd (fetch_details ?srv ?t asst_plain) = full_details asst_plain []"
    unfolding fetch_details_def using get_assistant_details_no_files [OF r e] by simp
  have ne: "snd (fetch_details ?srv ?t asst_plain) \<noteq> []"
    unfolding f by (simp add: full_details_def)
  have ml: "azure_models_list ?srv h = Inr [''gpt-3.5'', ''gpt-4-turbo'']" for h
    by (simp add: example_services_def)
  have res: "resolve_target_model (get_model (snd (fetch_details ?srv ?t asst_plain)))
               [''gpt-3.5'', ''gpt-4-turbo''] = Some ''gpt-4-turbo''"
    unfolding f by (simp add: resolve_target_model_def py_or_def asst_plain_def)
  have before: "length (filter is_create (calls ?t)) = 2" by code_simp
  have result: "snd (migrate_all_assistants ?srv initial_state) = Inr ?m" by code_simp
  note T = one_creation_per_listing_entry [OF l, of "''asst_1''" ?t asst_plain ?m]
  from T c have once: "count_list (calls ?t) (OpenAI_assistants_retrieve ''asst_1'')
      = count_list (calls initial_state) (OpenAI_assistants_retrieve ''asst_1'') + 1"
    by simp
  from T c have per_id: "sum_list (map snd (filter (\<lambda>e. fst e = ''asst_1'')
          (entry_creations ?srv (send OpenAI_assistants_list initial_state, [])
             [asst_helper, asst_plain]))) \<le> 1"
    by simp
  from T ne ml res
  have "\<exists>r. cr_model r = ''gpt-4-turbo''
          \<and> last (calls (fst (migrate_one ?srv (?t, ?m) asst_plain))) = Azure_assistants_create r
          \<and> length (filter is_create (calls (fst (migrate_one ?srv (?t, ?m) asst_plain))))
              = length (filter is_create (calls ?t)) + 1"
    by blast
  with before have again:
    "length (filter is_create (calls (fst (migrate_one ?srv (?t, ?m) asst_plain)))) = 3"
    by auto
  from once per_id result again show ?thesis by (simp add: initial_state_def)
qed

text \<open>
  Claim C7 as stated fails where the source lists the second assistant twice: its details
  are requested twice and a creation request is sent for each of its two entries, so
  this one source identifier yields two destination assistants in one run.
\<close>

theorem repeated_id_created_twice_counterexample:
  "openai_assistants_list repeated_listing_services (calls initial_state)
     = ([asst_helper, asst_plain, asst_plain], None)
   \<and> count_list (calls (fst (migrate_all_assistants repeated_listing_services initial_state)))
       (OpenAI_assistants_retrieve ''asst_2'') = 2
   \<and> entry_creations repeated_listing_services (send OpenAI_assistants_list initial_state, [])
       [asst_helper, asst_plain, asst_plain]
       = [(''asst_1'', 1), (''asst_2'', 1), (''asst_2'', 1)]
   \<and> length (filter is_create
        (calls (fst (migrate_all_assistants repeated_listing_services initial_state)))) = 3"
  by code_simp

subsection \<open>An error of the listing\<close>

text \<open>
  Claim C4, as the code has it. When the listing ends with an exception,
  \<open>get_openai_assistants\<close> logs it and returns the empty list; but the migration run
  does not call that function. \<open>migrate_all_assistants\<close> iterates the listing itself,
  outside any handler: the exception leaves it and no mapping is returned. When the first
  request of the listing is what fails, the run has sent that request and done nothing
  else, and nothing is logged.
\<close>

theorem listing_error_leaves_the_run:
  assumes "openai_assistants_list srv (calls s) = (items, Some exc)"
  shows "snd (get_openai_assistants srv s) = []
         \<and> log (fst (get_openai_assistants srv s))
             = log s @ [(INFO, ''Fetching assistants from OpenAI '' @ ellipsis),
                        (ERROR, ''Assistant fetch failed: '' @ str_exn exc)]
         \<and> snd (migrate_all_assistants srv s) = Inl exc
         \<and> (items = [] \<longrightarrow> fst (migrate_all_assistants srv s) = send OpenAI_assistants_list s)"
  using assms
  by (simp add: get_openai_assistants_def migrate_all_assistants_def split: prod.splits)

text \<open>The theorem where the first request of the listing fails.\<close>

theorem listing_error_leaves_the_run_witness:
  "snd (get_openai_assistants listing_fails_services initial_state) = []
   \<and> snd (migrate_all_assistants listing_fails_services initial_state)
       = Inl (Exception ''listing failed'')
   \<and> log (fst (migrate_all_assistants listing_fails_services initial_state)) = []"
proof -
  have l: "openai_assistants_list listing_fails_services (calls initial_state)
             = ([], Some (Exception ''listing failed''))"
    by (simp add: listing_fails_services_def example_services_def)
  from listing_error_leaves_the_run [OF l] show ?thesis
    by (simp add: initial_state_def)
qed

text \<open>
  Claim C4 as stated fails where the first request of the listing fails: the run returns
  no mapping, it ends with the exception.
\<close>

theorem listing_error_raises_counterexample:
  "snd (migrate_all_assistants listing_fails_services initial_state) \<noteq> Inr []
   \<and> snd (migrate_all_assistants listing_fails_services initial_state)
       = Inl (Exception ''listing failed'')"
  by (simp add: migrate_all_assistants_def listing_fails_services_def example_services_def)

subsection \<open>Missing configuration\<close>

lemma message_names_all_variables:
  "str_contains ''OPENAI_API_KEY'' missing_variables_message"
  "str_contains ''AZURE_OPENAI_API_KEY'' missing_variables_message"
  "str_contains ''AZURE_OPENAI_ENDPOINT'' missing_variables_message"
  by (simp_all add: missing_variables_message_def)

text \<open>
  Claim C5, as the code has it. When one of the three required variables is absent from
  the environment, \<open>main\<close> logs one error and exits with status 1 before it sends any
  request. The message is fixed: it names all three variables, whichever is absent.
\<close>

theorem missing_configuration_exits:
  assumes "environ ''OPENAI_API_KEY'' = None \<or> environ ''AZURE_OPENAI_API_KEY'' = None
           \<or> environ ''AZURE_OPENAI_ENDPOINT'' = None"
  shows "main srv environ s = (logger_error missing_variables_message s, SystemExit 1)
         \<and> exit_status (snd (main srv environ s)) \<noteq> 0
         \<and> calls (fst (main srv environ s)) = calls s
         \<and> log (fst (main srv environ s)) = log s @ [(ERROR, missing_variables_message)]
         \<and> str_contains ''OPENAI_API_KEY'' missing_variables_message
         \<and> str_contains ''AZURE_OPENAI_API_KEY'' missing_variables_message
         \<and> str_contains ''AZURE_OPENAI_ENDPOINT'' missing_variables_message"
proof -
  from assms have "main srv environ s = (logger_error missing_variables_message s, SystemExit 1)"
    by (auto simp: main_def)
  with message_names_all_variables show ?thesis by simp
qed

text \<open>The theorem for the environment without the source key.\<close>

theorem missing_configuration_exits_witness:
  "environ_without_source_key ''OPENAI_API_KEY'' = None
   \<and> snd (main example_services environ_without_source_key initial_state) = SystemExit 1
   \<and> calls (fst (main example_services environ_without_source_key initial_state)) = []"
proof -
  have a: "environ_without_source_key ''OPENAI_API_KEY'' = None"
    by (simp add: environ_without_source_key_def)
  then have "environ_without_source_key ''OPENAI_API_KEY'' = None
      \<or> environ_without_source_key ''AZURE_OPENAI_API_KEY'' = None
      \<or> environ_without_source_key ''AZURE_OPENAI_ENDPOINT'' = None"
    by simp
  from missing_configuration_exits [OF this, of example_services initial_state] a
  show ?thesis by (simp add: initial_state_def)
qed

text \<open>
  Claim C5 as stated fails for the environment without the source key: the destination
  endpoint is set, and the message names it all the same.
\<close>

theorem message_lists_present_variable_counterexample:
  "environ_without_source_key ''AZURE_OPENAI_ENDPOINT'' = Some ''https://example.openai.azure.com''
   \<and> log (fst (main example_services environ_without_source_key initial_state))
       = [(ERROR, missing_variables_message)]
   \<and> str_contains ''AZURE_OPENAI_ENDPOINT'' missing_variables_message"
  by (simp add: environ_without_source_key_def main_def initial_state_def
        message_names_all_variables)

subsection \<open>The exit status of a run\<close>

lemma AssistantMigrator_init_connected:
  assumes "openai_models_list srv (calls s) = None"
    and "azure_models_list srv (calls s @ [OpenAI_models_list]) = Inr ids"
  shows "snd (AssistantMigrator_init srv s) = None"
    and "calls (fst (AssistantMigrator_init srv s)) = calls s @ [OpenAI_models_list, Azure_models_list]"
  using assms by (simp_all add: AssistantMigrator_init_def)

lemma log_summary_fields [simp]:
  "calls (log_summary m s) = calls s"
  by (induction m s rule: log_summary.induct) simp_all

text \<open>
  Claim C6, as the code has it. Let the three variables be set, both connection checks
  succeed and the listing end without error. Then \<open>main\<close> returns, so the exit status is
  0, whatever happens to the assistants listed: each of them is handled (its details
  are requested once for each time it is listed), and the last line logged is the count
  of the mapping.
\<close>

theorem run_completes_with_status_zero:
  assumes "truthy (environ ''OPENAI_API_KEY'')" and "truthy (environ ''AZURE_OPENAI_API_KEY'')"
    and "truthy (environ ''AZURE_OPENAI_ENDPOINT'')"
    and "openai_models_list srv (calls s) = None"
    and "azure_models_list srv (calls s @ [OpenAI_models_list]) = Inr ids"
    and "openai_assistants_list srv (calls s @ [OpenAI_models_list, Azure_models_list])
           = (items, None)"
  shows "snd (main srv environ s) = Returned
         \<and> exit_status (snd (main srv environ s)) = 0
         \<and> count_list (calls (fst (main srv environ s))) (OpenAI_assistants_retrieve i)
             = count_list (calls s) (OpenAI_assistants_retrieve i) + count_list (map a_id items) i
         \<and> (\<exists>mapping.
               snd (migrate_all_assistants srv (fst (AssistantMigrator_init srv s))) = Inr mapping
               \<and> last (log (fst (main srv environ s)))
                   = (INFO, ''Successfully migrated '' @ str_nat (length mapping) @ '' assistants''))"
proof -
  obtain s1 st where init: "AssistantMigrator_init srv s = (s1, st)"
    by (cases "AssistantMigrator_init srv s")
  from AssistantMigrator_init_connected [OF assms(4,5)] init
  have st: "st = None" and c1: "calls s1 = calls s @ [OpenAI_models_list, Azure_models_list]"
    by simp_all
  from c1 assms(6) have l: "openai_assistants_list srv (calls s1) = (items, None)" by simp
  obtain s2 res where run: "migrate_all_assistants srv s1 = (s2, res)"
    by (cases "migrate_all_assistants srv s1")
  from l run obtain mapping where res: "res = Inr mapping"
    by (auto simp: migrate_all_assistants_def split: prod.splits)
  let ?final = "logger_info (''Successfully migrated '' @ str_nat (length mapping) @ '' assistants'')
                  (log_summary mapping
                     (logger_info ''Migration summary:'' (logger_info ''Migration completed!'' s2)))"
  from assms(1-3) init st run res have m: "main srv environ s = (?final, Returned)"
    by (simp add: main_def)
  have "count_list (calls s2) (OpenAI_assistants_retrieve i)
      = count_list (calls s1) (OpenAI_assistants_retrieve i) + count_list (map a_id items) i"
    using run_retrievals [of srv "send OpenAI_assistants_list s1" "[]" items i]
      migrate_all_assistants_state(1) [OF l] run
    by simp
  with c1 have "count_list (calls ?final) (OpenAI_assistants_retrieve i)
      = count_list (calls s) (OpenAI_assistants_retrieve i) + count_list (map a_id items) i"
    by simp
  moreover have "last (log ?final)
      = (INFO, ''Successfully migrated '' @ str_nat (length mapping) @ '' assistants'')"
    by simp
  ultimately show ?thesis using m init run res by simp
qed

text \<open>
  The theorem where the source cannot retrieve the first of the two listed assistants:
  its step fails and the exit status is 0.
\<close>

theorem run_completes_with_status_zero_witness:
  "item_fails retrieve_fails_services
       (send OpenAI_assistants_list (fst (AssistantMigrator_init retrieve_fails_services initial_state)))
       asst_helper
   \<and> snd (main retrieve_fails_services full_environ initial_state) = Returned
   \<and> exit_status (snd (main retrieve_fails_services full_environ initial_state)) = 0"
proof -
  let ?srv = retrieve_fails_services
  have e: "truthy (full_environ ''OPENAI_API_KEY'')" "truthy (full_environ ''AZURE_OPENAI_API_KEY'')"
    "truthy (full_environ ''AZURE_OPENAI_ENDPOINT'')"
    by (simp_all add: full_environ_def)
  have c1: "openai_models_list ?srv (calls initial_state) = None"
    by (simp add: retrieve_fails_services_def example_services_def)
  have c2: "azure_models_list ?srv (calls initial_state @ [OpenAI_models_list])
              = Inr [''gpt-3.5'', ''gpt-4-turbo'']"
    by (simp add: retrieve_fails_services_def example_services_def)
  have l: "openai_assistants_list ?srv (calls initial_state @ [OpenAI_models_list, Azure_models_list])
             = ([asst_helper, asst_plain], None)"
    by (simp add: retrieve_fails_services_def example_services_def)
  have f: "item_fails ?srv t asst_helper" for t
    by (simp add: item_fails_def retrieval_fails_def retrieve_fails_services_def
          example_services_def asst_helper_def)
  from run_completes_with_status_zero [OF e c1 c2 l] f show ?thesis by simp
qed

text \<open>
  Claim C6 as stated fails where both connection checks succeed and the first request of
  the listing fails: the exception is not caught and the exit status is 1.
\<close>

theorem listing_error_exit_status_counterexample:
  "snd (AssistantMigrator_init listing_fails_services initial_state) = None
   \<and> snd (main listing_fails_services full_environ initial_state)
       = Uncaught (Exception ''listing failed'')
   \<and> exit_status (snd (main listing_fails_services full_environ initial_state)) = 1"
  by code_simp

end
